theory Spec2Isabelle
  imports Complex_Main
begin

section \<open>Pipeline orchestrator (src/pipeline-orchestrator.js)\<close>

text \<open>
  A stage's \<open>execute\<close> is an asynchronous call that either resolves with a stage result
  or rejects with an error. The orchestrator awaits each call before it goes on, so a call
  is modelled as a function from the options object to \<open>Inl message\<close> (rejected) or
  \<open>Inr result\<close> (resolved). Wall-clock fields (\<open>duration\<close>, \<open>stageDuration\<close>,
  \<open>executionTime\<close>) and the echoed configuration are left out of the records: no
  branch of the orchestrator reads them.
\<close>

text \<open>The statistics the orchestrator reads from a stage result; every field may be absent.\<close>

record stage_stats =
  ss_totalDocuments :: "nat option"
  ss_failedDocuments :: "nat option"
  ss_cacheHitRate :: "rat option"
  ss_aiProcessingRate :: "rat option"
  ss_indexingSuccessRate :: "rat option"

record 'd stage_result =
  sr_stage :: string
  sr_success :: bool
  sr_error :: "string option"
  sr_stats :: "stage_stats option"
  sr_documents :: "'d list option"

text \<open>The options object built by the \<open>switch (name)\<close> of \<open>executePipeline\<close>.\<close>

datatype 'd stage_options =
    BaseOptions nat nat
  | CloneOptions nat nat "string list" bool
  | CleanOptions nat nat "'d list option" bool
  | UploadOptions nat nat "'d list option" bool

type_synonym 'd stage_fn = "'d stage_options \<Rightarrow> string + 'd stage_result"

record 'd stage_set =
  stage_clone :: "'d stage_fn"
  stage_clean :: "'d stage_fn"
  stage_upload :: "'d stage_fn"

record pipeline_config =
  cfg_batchSize :: "nat option"
  cfg_maxConcurrentAiRequests :: "nat option"

record pipeline_options =
  folderTokens :: "string list"
  forceFullUpdate :: bool
  forceReprocess :: bool
  forceReindex :: bool
  skipStages :: "string list"
  opt_batchSize :: "nat option"
  opt_maxConcurrentAiRequests :: "nat option"
  failFast :: "bool option"

record overall_stats =
  os_totalDocuments :: nat
  os_processedDocuments :: nat
  os_failedDocuments :: nat
  os_cacheHitRate :: rat
  os_aiProcessingRate :: rat
  os_indexingSuccessRate :: rat
  os_stageStats :: "string \<rightharpoonup> stage_stats"

text \<open>
  \<open>executionState\<close> of the orchestrator, together with the loop variable
  \<open>currentDocuments\<close> and a log \<open>invoked\<close> of the \<open>stage.execute\<close> calls made so far
  (stage name, options passed, outcome). The source performs these calls; the log only
  records them, so that a statement can say which stage ran on which document set.
\<close>

record 'd execution_state =
  isRunning :: bool
  currentStage :: "string option"
  stageResults :: "string \<rightharpoonup> 'd stage_result"
  overallStats :: "overall_stats option"
  currentDocuments :: "'d list option"
  invoked :: "(string \<times> 'd stage_options \<times> (string + 'd stage_result)) list"

record 'd pipeline_result =
  pr_success :: bool
  pr_stages :: "string \<rightharpoonup> 'd stage_result"
  pr_overallStats :: "overall_stats option"

text \<open>\<open>a || b\<close> on an optional number: \<open>undefined\<close> and \<open>0\<close> are falsy.\<close>

definition orDefault :: "nat option \<Rightarrow> nat \<Rightarrow> nat" where
  "orDefault v d = (case v of None \<Rightarrow> d | Some n \<Rightarrow> if n = 0 then d else n)"

text \<open>Destructuring default \<open>{ x = d } = options\<close>: only \<open>undefined\<close> takes the default.\<close>

definition destructured :: "nat option \<Rightarrow> nat \<Rightarrow> nat" where
  "destructured v d = (case v of None \<Rightarrow> d | Some n \<Rightarrow> n)"

definition stageOptions ::
  "pipeline_options \<Rightarrow> nat \<Rightarrow> nat \<Rightarrow> string \<Rightarrow> 'd list option \<Rightarrow> 'd stage_options" where
  "stageOptions opts bs mc name docs =
     (if name = ''clone'' then CloneOptions bs mc (folderTokens opts) (forceFullUpdate opts)
      else if name = ''clean'' then CleanOptions bs mc docs (forceReprocess opts)
      else if name = ''upload'' then UploadOptions bs mc docs (forceReindex opts)
      else BaseOptions bs mc)"

definition failedStage :: "string \<Rightarrow> string \<Rightarrow> 'd stage_result" where
  "failedStage name msg =
     \<lparr>sr_stage = name, sr_success = False, sr_error = Some msg,
      sr_stats = None, sr_documents = None\<rparr>"

text \<open>The body of the \<open>try\<close> block after \<open>stage.execute\<close> has resolved.\<close>

definition stageSucceeded ::
  "string \<Rightarrow> 'd stage_result \<Rightarrow> 'd execution_state \<Rightarrow> 'd execution_state" where
  "stageSucceeded name stageResult st =
     st\<lparr>stageResults := (stageResults st)(name \<mapsto> stageResult),
        currentDocuments :=
          (case sr_documents stageResult of
             Some ds \<Rightarrow> Some ds
           | None \<Rightarrow> currentDocuments st)\<rparr>"

text \<open>The \<open>catch (stageError)\<close> block, up to the fail-fast decision.\<close>

definition stageFailed :: "string \<Rightarrow> string \<Rightarrow> 'd execution_state \<Rightarrow> 'd execution_state" where
  "stageFailed name msg st =
     st\<lparr>stageResults := (stageResults st)(name \<mapsto> failedStage name msg)\<rparr>"

definition stageStarted ::
  "string \<Rightarrow> 'd stage_options \<Rightarrow> (string + 'd stage_result) \<Rightarrow>
   'd execution_state \<Rightarrow> 'd execution_state" where
  "stageStarted name so outcome st =
     st\<lparr>currentStage := Some name, invoked := invoked st @ [(name, so, outcome)]\<rparr>"

text \<open>
  The \<open>for (const { name, stage } of stages)\<close> loop. The first component of the result is
  the error thrown out of the loop, if any.
\<close>

fun stageLoop ::
  "pipeline_options \<Rightarrow> nat \<Rightarrow> nat \<Rightarrow> (string \<times> 'd stage_fn) list \<Rightarrow>
   'd execution_state \<Rightarrow> string option \<times> 'd execution_state" where
  "stageLoop opts bs mc [] st = (None, st)"
| "stageLoop opts bs mc ((name, stage) # rest) st =
     (if name \<in> set (skipStages opts) then stageLoop opts bs mc rest st
      else
        let so = stageOptions opts bs mc name (currentDocuments st);
            st1 = stageStarted name so (stage so) st
        in case stage so of
             Inr stageResult \<Rightarrow>
               stageLoop opts bs mc rest (stageSucceeded name stageResult st1)
           | Inl msg \<Rightarrow>
               if failFast opts \<noteq> Some False
               then (Some (''Pipeline failed at stage '' @ name @ '': '' @ msg),
                     stageFailed name msg st1)
               else stageLoop opts bs mc rest (stageFailed name msg st1))"

text \<open>
  \<open>calculateOverallStats\<close>: \<open>Object.entries\<close> walks the stage results in insertion
  order, which is the order of the stage sequence.
\<close>

definition statsStep :: "string \<Rightarrow> 'd stage_result \<Rightarrow>
    (overall_stats \<times> rat \<times> rat \<times> rat) \<Rightarrow> (overall_stats \<times> rat \<times> rat \<times> rat)" where
  "statsStep stageName result acc =
     (case acc of (stats, totalCacheHits, totalAiProcessed, totalIndexed) \<Rightarrow>
        (case sr_stats result of
           Some s \<Rightarrow>
             if sr_success result then
               let total = (case ss_totalDocuments s of None \<Rightarrow> 0 | Some n \<Rightarrow> n) in
               (stats\<lparr>os_stageStats := (os_stageStats stats)(stageName \<mapsto> s),
                       os_totalDocuments := max (os_totalDocuments stats) total,
                       os_processedDocuments := os_processedDocuments stats +
                         (case sr_documents result of None \<Rightarrow> 0 | Some ds \<Rightarrow> length ds),
                       os_failedDocuments := os_failedDocuments stats +
                         (case ss_failedDocuments s of None \<Rightarrow> 0 | Some n \<Rightarrow> n)\<rparr>,
                (case ss_cacheHitRate s of None \<Rightarrow> totalCacheHits
                 | Some r \<Rightarrow> totalCacheHits + r * of_nat total),
                (case ss_aiProcessingRate s of None \<Rightarrow> totalAiProcessed
                 | Some r \<Rightarrow> totalAiProcessed + r * of_nat total),
                (case ss_indexingSuccessRate s of None \<Rightarrow> totalIndexed
                 | Some r \<Rightarrow> totalIndexed + r * of_nat total))
             else acc
         | None \<Rightarrow> acc))"

definition calculateOverallStats :: "(string \<rightharpoonup> 'd stage_result) \<Rightarrow> overall_stats" where
  "calculateOverallStats results =
     (let init = (\<lparr>os_totalDocuments = 0, os_processedDocuments = 0, os_failedDocuments = 0,
                   os_cacheHitRate = 0, os_aiProcessingRate = 0, os_indexingSuccessRate = 0,
                   os_stageStats = Map.empty\<rparr>, 0, 0, 0);
          step = (\<lambda>acc stageName.
                    case results stageName of None \<Rightarrow> acc
                    | Some result \<Rightarrow> statsStep stageName result acc)
      in case foldl step init [''clone'', ''clean'', ''upload''] of
           (stats, totalCacheHits, totalAiProcessed, totalIndexed) \<Rightarrow>
             if os_totalDocuments stats > 0
             then stats\<lparr>os_cacheHitRate := totalCacheHits / of_nat (os_totalDocuments stats),
                        os_aiProcessingRate := totalAiProcessed / of_nat (os_totalDocuments stats),
                        os_indexingSuccessRate := totalIndexed / of_nat (os_totalDocuments stats)\<rparr>
             else stats)"

text \<open>
  \<open>batchSize = this.config.performance?.batchSize || 10\<close> and
  \<open>maxConcurrentAiRequests = this.config.performance?.maxConcurrentAiRequests || 5\<close>,
  as defaults of the destructuring of \<open>options\<close>.
\<close>

definition batchSizeOf :: "pipeline_config \<Rightarrow> pipeline_options \<Rightarrow> nat" where
  "batchSizeOf cfg opts = destructured (opt_batchSize opts) (orDefault (cfg_batchSize cfg) 10)"

definition maxConcurrentOf :: "pipeline_config \<Rightarrow> pipeline_options \<Rightarrow> nat" where
  "maxConcurrentOf cfg opts =
     destructured (opt_maxConcurrentAiRequests opts)
       (orDefault (cfg_maxConcurrentAiRequests cfg) 5)"

definition getPipelineResult :: "'d execution_state \<Rightarrow> 'd pipeline_result" where
  "getPipelineResult st =
     \<lparr>pr_success = True, pr_stages = stageResults st, pr_overallStats = overallStats st\<rparr>"

text \<open>
  \<open>executePipeline\<close>: the final execution state and either the error the returned promise
  rejects with (\<open>Inl\<close>) or the result it resolves with (\<open>Inr\<close>).
\<close>

definition executePipeline ::
  "pipeline_config \<Rightarrow> 'd stage_set \<Rightarrow> 'd execution_state \<Rightarrow> pipeline_options \<Rightarrow>
   'd execution_state \<times> (string + 'd pipeline_result)" where
  "executePipeline cfg stages st0 opts =
     (let st = st0\<lparr>isRunning := True, stageResults := Map.empty,
                   currentDocuments := None, invoked := []\<rparr>;
          bs = batchSizeOf cfg opts;
          mc = maxConcurrentOf cfg opts
      in if folderTokens opts = []
         then (st\<lparr>isRunning := False\<rparr>, Inl ''folderTokens is required and cannot be empty'')
         else
           case stageLoop opts bs mc
                  [(''clone'', stage_clone stages), (''clean'', stage_clean stages),
                   (''upload'', stage_upload stages)] st of
             (Some err, st') \<Rightarrow> (st'\<lparr>isRunning := False\<rparr>, Inl err)
           | (None, st') \<Rightarrow>
               let st'' = st'\<lparr>overallStats := Some (calculateOverallStats (stageResults st')),
                              isRunning := False\<rparr>
               in (st'', Inr (getPipelineResult st'')))"

text \<open>The initial \<open>executionState\<close> set by the constructor.\<close>

definition initialState :: "'d execution_state" where
  "initialState =
     \<lparr>isRunning = False, currentStage = None, stageResults = Map.empty,
      overallStats = None, currentDocuments = None, invoked = []\<rparr>"

text \<open>
  The document set most recently handed on by a call of the log: the \<open>documents\<close> of the
  last call that resolved with a result carrying a document list.
\<close>

fun lastProduced ::
  "(string \<times> 'd stage_options \<times> (string + 'd stage_result)) list \<Rightarrow> 'd list option" where
  "lastProduced [] = None"
| "lastProduced (c # cs) =
     (case lastProduced cs of
        Some ds \<Rightarrow> Some ds
      | None \<Rightarrow> (case snd (snd c) of
                  Inr r \<Rightarrow> sr_documents r
                | Inl _ \<Rightarrow> None))"

text \<open>The document set an options object carries (\<open>clean\<close> and \<open>upload\<close> only).\<close>

fun optionDocuments :: "'d stage_options \<Rightarrow> 'd list option option" where
  "optionDocuments (CleanOptions _ _ docs _) = Some docs"
| "optionDocuments (UploadOptions _ _ docs _) = Some docs"
| "optionDocuments _ = None"

text \<open>\<open>this.stages[name]\<close>.\<close>

definition stageFn :: "'d stage_set \<Rightarrow> string \<Rightarrow> 'd stage_fn" where
  "stageFn stages name =
     (if name = ''clone'' then stage_clone stages
      else if name = ''clean'' then stage_clean stages
      else stage_upload stages)"

text \<open>
  What \<open>executePipeline\<close> stores in \<open>stageResults[name]\<close> for an outcome of
  \<open>stage.execute\<close>: the result itself, or the failure record of the \<open>catch\<close> block.
\<close>

definition recorded :: "string \<Rightarrow> (string + 'd stage_result) \<Rightarrow> 'd stage_result" where
  "recorded name r = (case r of Inl msg \<Rightarrow> failedStage name msg | Inr x \<Rightarrow> x)"

text \<open>
  Three invariants of the call log, used in the proofs below: every call was made on the
  options built from the document set handed on so far and its outcome is that of the
  stage; every call's outcome is what \<open>stageResults\<close> holds for the stage; no call
  has been rejected.
\<close>

definition callsOK :: "pipeline_options \<Rightarrow> nat \<Rightarrow> nat \<Rightarrow> (string \<Rightarrow> 'd stage_fn) \<Rightarrow>
  (string \<times> 'd stage_options \<times> (string + 'd stage_result)) list \<Rightarrow> bool" where
  "callsOK opts bs mc stg calls =
     (\<forall>pre n so r post. calls = pre @ (n, so, r) # post \<longrightarrow>
        so = stageOptions opts bs mc n (lastProduced pre) \<and> r = stg n so)"

definition resultsOK :: "'d execution_state \<Rightarrow> bool" where
  "resultsOK st = (\<forall>(n, so, r) \<in> set (invoked st). stageResults st n = Some (recorded n r))"

definition allResolved ::
  "(string \<times> 'd stage_options \<times> (string + 'd stage_result)) list \<Rightarrow> bool" where
  "allResolved calls = (\<forall>(n, so, r) \<in> set calls. \<exists>x. r = Inr x)"

subsection \<open>Example runs of the orchestrator\<close>

text \<open>
  Mock stages in the manner of tests/integration/pipeline-integration.test.js: Collection
  resolves with three documents, Enrichment rejects, Indexing resolves without a
  \<open>documents\<close> field.
\<close>

definition mockStats :: "nat \<Rightarrow> stage_stats" where
  "mockStats n =
     \<lparr>ss_totalDocuments = Some n, ss_failedDocuments = None, ss_cacheHitRate = None,
      ss_aiProcessingRate = None, ss_indexingSuccessRate = None\<rparr>"

definition mockStages :: "nat stage_set" where
  "mockStages =
     \<lparr>stage_clone = (\<lambda>so. Inr \<lparr>sr_stage = ''clone'', sr_success = True, sr_error = None,
                                sr_stats = Some (mockStats 5), sr_documents = Some [1, 2, 3]\<rparr>),
      stage_clean = (\<lambda>so. Inl ''Clean stage failed''),
      stage_upload = (\<lambda>so. Inr \<lparr>sr_stage = ''upload'', sr_success = True, sr_error = None,
                                 sr_stats = Some (mockStats 3), sr_documents = None\<rparr>)\<rparr>"

definition mockConfig :: pipeline_config where
  "mockConfig = \<lparr>cfg_batchSize = Some 10, cfg_maxConcurrentAiRequests = Some 5\<rparr>"

definition mockOptions :: "string list \<Rightarrow> bool option \<Rightarrow> pipeline_options" where
  "mockOptions skip ff =
     \<lparr>folderTokens = [''folder1''], forceFullUpdate = False, forceReprocess = False,
      forceReindex = False, skipStages = skip, opt_batchSize = None,
      opt_maxConcurrentAiRequests = None, failFast = ff\<rparr>"

section \<open>Documents and JavaScript values\<close>

text \<open>
  A JavaScript string is a sequence of UTF-16 code units; \<open>length\<close>, \<open>trim\<close> and the
  sentence splitter work on code units, so text fields are lists of code units. Keys
  (document ids, stage names, error messages) are plain ASCII strings.
\<close>

type_synonym jstring = "nat list"

definition js :: "string \<Rightarrow> jstring" where
  "js s = map of_char s"

text \<open>
  The values a timestamp field can hold: absent, \<open>null\<close>, a string, a number, a
  \<open>Date\<close> (with its time value in milliseconds, \<open>None\<close> for an Invalid Date), or a
  value that \<open>new Date\<close> cannot convert (a Symbol).
\<close>

datatype jstime =
    TUndefined
  | TNull
  | TString string
  | TNumber int
  | TDate "int option"
  | TSymbol

fun truthyTime :: "jstime \<Rightarrow> bool" where
  "truthyTime TUndefined = False"
| "truthyTime TNull = False"
| "truthyTime (TString s) = (s \<noteq> [])"
| "truthyTime (TNumber n) = (n \<noteq> 0)"
| "truthyTime (TDate _) = True"
| "truthyTime TSymbol = True"

text \<open>\<open>a || b\<close> on timestamp values.\<close>

definition orTime :: "jstime \<Rightarrow> jstime \<Rightarrow> jstime" where
  "orTime a b = (if truthyTime a then a else b)"

text \<open>The document as listed by the source client, before its content is fetched.\<close>

record source_document =
  sd_id :: string
  sd_type :: "string option"
  sd_modified_time :: jstime
  sd_updatedAt :: jstime

text \<open>
  The document object that travels through Enrichment and Indexing. A field that may be
  absent is an option. The wall-clock stamps \<open>processed_at\<close> and
  \<open>metadata.processedAt\<close> are left out.
\<close>

record document =
  doc_id :: string
  doc_type :: "string option"
  doc_name :: "jstring option"
  doc_title :: "jstring option"
  doc_content :: "jstring option"
  doc_source :: "jstring option"
  doc_created_time :: jstime
  doc_modified_time :: jstime
  doc_owner_id :: "string option"
  ai_title :: "jstring option"
  summary :: "jstring option"
  doc_keywords :: "jstring list option"
  category :: "jstring option"
  cached :: "bool option"
  doc_error :: "string option"
  is_split_part :: "string option"
  original_file :: "string option"
  wordCount :: "nat option"
  embedding :: "rat list option"
  embeddingError :: "string option"

text \<open>
  The object \<open>processDocumentAI\<close> returns and the cache stores as \<open>aiResults\<close>.
  The stage spreads it over the document, so for each key it matters whether the object
  has the key at all: \<open>None\<close> is a key the object does not have, \<open>Some None\<close> a key
  it has with the value \<open>undefined\<close> or \<open>null\<close>, \<open>Some (Some v)\<close> a key with the
  value \<open>v\<close>.
\<close>

record ai_results =
  ar_ai_title :: "jstring option option"
  ar_summary :: "jstring option option"
  ar_keywords :: "jstring list option option"
  ar_category :: "jstring option option"
  ar_error :: "string option option"

record processed_content =
  pc_title :: "jstring option"
  pc_content :: "jstring option"
  pc_summary :: "jstring option"
  pc_keywords :: "jstring list option"
  pc_category :: "jstring option"

section \<open>Cache layer (src/services/mongodb-cache.js)\<close>

record cache_metadata =
  cm_title :: "jstring option"
  cm_source :: jstring
  cm_created_time :: jstime
  cm_modified_time :: jstime
  cm_owner_id :: "string option"

text \<open>
  A cache entry. \<open>ce_embedding\<close> is the top-level \<open>embedding\<close> field that the
  Indexing stage reads; neither \<open>cacheDocument\<close> nor \<open>batchCacheDocuments\<close> writes it.
  \<open>createdAt\<close> and \<open>updatedAt\<close> are \<open>Date\<close> values, given by their time value.
\<close>

record cache_entry =
  documentId :: string
  hash :: string
  ce_type :: string
  originalDocument :: document
  processedContent :: "processed_content option"
  aiResults :: "ai_results option"
  ce_metadata :: cache_metadata
  createdAt :: int
  updatedAt :: int
  lastModified :: jstime
  ce_embedding :: "rat list option"

text \<open>
  The cache collection has a unique index on \<open>documentId\<close>, so it is a map from ids to
  entries. A database round trip may fail: \<open>readError\<close> and \<open>writeError\<close> give the
  error the driver throws for an operation on an id, if any.
\<close>

record cache =
  entries :: "string \<rightharpoonup> cache_entry"
  readError :: "string \<Rightarrow> string option"
  writeError :: "string \<Rightarrow> string option"

text \<open>
  What a caller can hand to \<open>calculateHash\<close>: any JavaScript value. An object is the list
  of its own enumerable properties in insertion order, which is what \<open>JSON.stringify\<close>
  walks: two objects with the same properties in another order, or with a further
  property, are different values.
\<close>

datatype jsvalue =
    JUndefined
  | JNull
  | JBoolean bool
  | JNumber rat
  | JString jstring
  | JArray "jsvalue list"
  | JObject "(string \<times> jsvalue) list"

text \<open>
  \<open>JSON.stringify\<close> and the MD5 digest are functions of the platform and are parameters
  of the model; \<open>JSON.stringify\<close> returns \<open>undefined\<close> (\<open>None\<close>) for \<open>undefined\<close>, and
  the digest's \<open>update\<close> then throws a TypeError. The third parameter, \<open>objectOf\<close>,
  gives the JavaScript object that a document record is a view of: the record holds the
  properties the stages read, the object also their order and the properties the record
  leaves out (time stamps, properties no stage reads). The cache hashes the object.
\<close>

record platform =
  JSON_stringify :: "jsvalue \<Rightarrow> string option"
  md5_hex :: "string \<Rightarrow> string"
  objectOf :: "document \<Rightarrow> jsvalue"

definition calculateHash :: "platform \<Rightarrow> jsvalue \<Rightarrow> string + string" where
  "calculateHash rt v =
     (case JSON_stringify rt v of
        None \<Rightarrow> Inl ''The \"data\" argument must be of type string''
      | Some s \<Rightarrow> Inr (md5_hex rt s))"

text \<open>\<open>isDocumentCached\<close>: \<open>findOne({ documentId, hash })\<close>; any error gives \<open>false\<close>.\<close>

definition isDocumentCached :: "platform \<Rightarrow> cache \<Rightarrow> string \<Rightarrow> jsvalue \<Rightarrow> bool" where
  "isDocumentCached rt c did v =
     (case readError c did of
        Some _ \<Rightarrow> False
      | None \<Rightarrow>
          (case calculateHash rt v of
             Inl _ \<Rightarrow> False
           | Inr h \<Rightarrow>
               (case entries c did of
                  None \<Rightarrow> False
                | Some e \<Rightarrow> hash e = h)))"

text \<open>\<open>getCachedDocument\<close>: \<open>findOne({ documentId })\<close>; any error gives \<open>null\<close>.\<close>

definition getCachedDocument :: "cache \<Rightarrow> string \<Rightarrow> cache_entry option" where
  "getCachedDocument c did =
     (case readError c did of Some _ \<Rightarrow> None | None \<Rightarrow> entries c did)"

text \<open>\<open>a || b\<close> on optional strings: \<open>undefined\<close> and the empty string are falsy.\<close>

definition orStr :: "'a list option \<Rightarrow> 'a list option \<Rightarrow> 'a list option" where
  "orStr a b = (case a of None \<Rightarrow> b | Some s \<Rightarrow> if s = [] then b else Some s)"

definition orStrDefault :: "'a list option \<Rightarrow> 'a list \<Rightarrow> 'a list" where
  "orStrDefault a d = (case a of None \<Rightarrow> d | Some s \<Rightarrow> if s = [] then d else s)"

definition emptyAiResults :: ai_results where
  "emptyAiResults =
     \<lparr>ar_ai_title = None, ar_summary = None, ar_keywords = None, ar_category = None,
      ar_error = None\<rparr>"

text \<open>The entry \<open>cacheDocument\<close> and \<open>batchCacheDocuments\<close> build for a document.\<close>

definition cacheEntryFor ::
  "string \<Rightarrow> int \<Rightarrow> document \<Rightarrow> processed_content option \<Rightarrow> ai_results option \<Rightarrow>
   cache_entry" where
  "cacheEntryFor h now d pc ai =
     \<lparr>documentId = doc_id d,
      hash = h,
      ce_type = orStrDefault (doc_type d) ''doc'',
      originalDocument = d,
      processedContent = pc,
      aiResults = ai,
      ce_metadata =
        \<lparr>cm_title = orStr (doc_name d) (doc_title d),
         cm_source = orStrDefault (doc_source d) (js ''feishu''),
         cm_created_time = doc_created_time d,
         cm_modified_time = doc_modified_time d,
         cm_owner_id = doc_owner_id d\<rparr>,
      createdAt = now,
      updatedAt = now,
      lastModified = orTime (doc_modified_time d) (TDate (Some now)),
      ce_embedding = None\<rparr>"

text \<open>
  \<open>cacheDocument(document, processedContent, aiResults = {})\<close>: \<open>replaceOne\<close> with
  \<open>upsert: true\<close>; errors are rethrown. \<open>now\<close> is the clock reading of \<open>new Date()\<close>.
\<close>

definition cacheDocument ::
  "platform \<Rightarrow> int \<Rightarrow> cache \<Rightarrow> document \<Rightarrow> processed_content option \<Rightarrow>
   ai_results option \<Rightarrow> string + cache" where
  "cacheDocument rt now c d pc ai =
     (case writeError c (doc_id d) of
        Some err \<Rightarrow> Inl err
      | None \<Rightarrow>
          (case calculateHash rt (objectOf rt d) of
             Inl err \<Rightarrow> Inl err
           | Inr h \<Rightarrow>
               Inr (c\<lparr>entries := (entries c)(doc_id d \<mapsto>
                      cacheEntryFor h now d pc
                        (Some (case ai of None \<Rightarrow> emptyAiResults | Some a \<Rightarrow> a)))\<rparr>)))"

text \<open>
  \<open>updateAIResults(documentId, aiResults)\<close>: \<open>updateOne\<close> with
  \<open>$set: { aiResults, updatedAt: new Date() }\<close> and no \<open>upsert\<close>, so nothing is written
  when no entry matches the id.
\<close>

definition updateAIResults :: "int \<Rightarrow> cache \<Rightarrow> string \<Rightarrow> ai_results \<Rightarrow> string + cache" where
  "updateAIResults now c did ai =
     (case writeError c did of
        Some err \<Rightarrow> Inl err
      | None \<Rightarrow>
          (case entries c did of
             None \<Rightarrow> Inr c
           | Some e \<Rightarrow>
               Inr (c\<lparr>entries := (entries c)(did \<mapsto> e\<lparr>aiResults := Some ai, updatedAt := now\<rparr>)\<rparr>)))"

text \<open>
  \<open>batchCacheDocuments\<close>: one \<open>bulkWrite\<close> of \<open>replaceOne\<close> upserts, applied in order.
  The whole call rejects when a hash cannot be computed or the write fails.
\<close>

fun batchOperations ::
  "platform \<Rightarrow> int \<Rightarrow> (document \<times> processed_content option \<times> ai_results option) list \<Rightarrow>
   string + cache_entry list" where
  "batchOperations rt now [] = Inr []"
| "batchOperations rt now ((d, pc, ai) # rest) =
     (case calculateHash rt (objectOf rt d) of
        Inl err \<Rightarrow> Inl err
      | Inr h \<Rightarrow>
          (case batchOperations rt now rest of
             Inl err \<Rightarrow> Inl err
           | Inr es \<Rightarrow> Inr (cacheEntryFor h now d pc ai # es)))"

definition batchCacheDocuments ::
  "platform \<Rightarrow> int \<Rightarrow> cache \<Rightarrow>
   (document \<times> processed_content option \<times> ai_results option) list \<Rightarrow> string + cache" where
  "batchCacheDocuments rt now c batch =
     (case batchOperations rt now batch of
        Inl err \<Rightarrow> Inl err
      | Inr es \<Rightarrow>
          (case List.map_filter (\<lambda>e. writeError c (documentId e)) es of
             err # _ \<Rightarrow> Inl err
           | [] \<Rightarrow>
               Inr (c\<lparr>entries := foldl (\<lambda>m e. m(documentId e \<mapsto> e)) (entries c) es\<rparr>)))"

section \<open>Staleness check of the Collection stage (isDocumentModified, src/stages/clean-stage.js)\<close>

text \<open>
  \<open>new Date(v)\<close>: the time value of the new \<open>Date\<close>, \<open>None\<close> for an Invalid Date.
  Parsing a string never throws; a string that cannot be parsed gives an Invalid Date.
  \<open>Date.parse\<close> is implementation-defined outside the ISO format and is a parameter.
  Only a value that cannot be converted to a primitive number or string throws.
\<close>

definition timeClip :: "int \<Rightarrow> int option" where
  "timeClip t = (if \<bar>t\<bar> \<le> 8640000000000000 then Some t else None)"

fun newDate :: "(string \<Rightarrow> int option) \<Rightarrow> jstime \<Rightarrow> string + int option" where
  "newDate parse TUndefined = Inr None"
| "newDate parse TNull = Inr (Some 0)"
| "newDate parse (TString s) = Inr (case parse s of None \<Rightarrow> None | Some t \<Rightarrow> timeClip t)"
| "newDate parse (TNumber n) = Inr (timeClip n)"
| "newDate parse (TDate t) = Inr t"
| "newDate parse TSymbol = Inl ''Cannot convert a Symbol value to a number''"

text \<open>\<open>a > b\<close> on two \<open>Date\<close> objects: both become numbers, and \<open>NaN\<close> compares false.\<close>

definition dateGreater :: "int option \<Rightarrow> int option \<Rightarrow> bool" where
  "dateGreater a b = (case (a, b) of (Some x, Some y) \<Rightarrow> x > y | _ \<Rightarrow> False)"

definition isDocumentModified ::
  "(string \<Rightarrow> int option) \<Rightarrow> source_document \<Rightarrow> cache_entry \<Rightarrow> bool" where
  "isDocumentModified parse d e =
     (case newDate parse (orTime (sd_modified_time d) (sd_updatedAt d)) of
        Inl _ \<Rightarrow> True
      | Inr docModified \<Rightarrow>
          (case newDate parse (orTime (lastModified e) (TDate (Some (updatedAt e)))) of
             Inl _ \<Rightarrow> True
           | Inr cachedModified \<Rightarrow> dateGreater docModified cachedModified))"

subsection \<open>Example cache contents\<close>

definition plainDocument :: "string \<Rightarrow> jstring \<Rightarrow> document" where
  "plainDocument i c =
     \<lparr>doc_id = i, doc_type = Some ''doc'', doc_name = None, doc_title = Some (js ''Title''),
      doc_content = Some c, doc_source = None, doc_created_time = TUndefined,
      doc_modified_time = TUndefined, doc_owner_id = None, ai_title = None, summary = None,
      doc_keywords = None, category = None, cached = None, doc_error = None,
      is_split_part = None, original_file = None, wordCount = None, embedding = None,
      embeddingError = None\<rparr>"

definition emptyCache :: cache where
  "emptyCache = \<lparr>entries = Map.empty, readError = (\<lambda>_. None), writeError = (\<lambda>_. None)\<rparr>"

definition demoAiResults :: ai_results where
  "demoAiResults =
     \<lparr>ar_ai_title = Some (Some (js ''AI Title'')), ar_summary = Some (Some (js ''AI summary'')),
      ar_keywords = Some (Some []), ar_category = Some (Some (js ''API'')), ar_error = None\<rparr>"

text \<open>
  A stand-in platform for the examples. The serializer writes a string in quotes and an
  object as its properties in order, separated by commas (a property that is not a string
  as \<open>null\<close>); the object of a document holds its id and its content. The digest keeps
  only the length of its input (one mark per character), so that different inputs of the
  same length have the same digest, as every digest of bounded size has for some inputs.
\<close>

definition quoted :: "string \<Rightarrow> string" where
  "quoted s = ''\"'' @ s @ ''\"''"

fun commaSeparated :: "string list \<Rightarrow> string" where
  "commaSeparated [] = []"
| "commaSeparated [x] = x"
| "commaSeparated (x # y # zs) = x @ '','' @ commaSeparated (y # zs)"

definition demoStringify :: "jsvalue \<Rightarrow> string option" where
  "demoStringify v =
     (case v of
        JUndefined \<Rightarrow> None
      | JString s \<Rightarrow> Some (quoted (map char_of s))
      | JObject props \<Rightarrow>
          Some (''{'' @
                commaSeparated
                  (map (\<lambda>(k, w). quoted k @ '':'' @
                          (case w of JString t \<Rightarrow> quoted (map char_of t) | _ \<Rightarrow> ''null''))
                     props) @
                ''}'')
      | _ \<Rightarrow> Some ''null'')"

definition demoObject :: "string \<Rightarrow> jstring \<Rightarrow> jsvalue" where
  "demoObject i c = JObject [(''id'', JString (js i)), (''content'', JString c)]"

definition demoPlatform :: platform where
  "demoPlatform =
     \<lparr>JSON_stringify = demoStringify,
      md5_hex = (\<lambda>s. replicate (length s) (CHR ''#'')),
      objectOf = (\<lambda>d. demoObject (doc_id d) (case doc_content d of None \<Rightarrow> [] | Some c \<Rightarrow> c))\<rparr>"

definition demoCache :: cache where
  "demoCache =
     emptyCache\<lparr>entries :=
       [''doc1'' \<mapsto> cacheEntryFor ''0f343b0931126a20f133d67c2b018a3b'' 1000
                       (plainDocument ''doc1'' (js ''hello'')) None None]\<rparr>"

section \<open>Shared helpers of the stages and services\<close>

text \<open>
  \<open>chunkArray(array, size)\<close>: \<open>for (let i = 0; i < array.length; i += size)\<close> pushes
  \<open>array.slice(i, i + size)\<close>. Batch sizes are natural numbers here; with size 0 the loop
  index never advances, so on a non-empty array the call does not return (\<open>None\<close>).
\<close>

function chunks :: "nat \<Rightarrow> 'a list \<Rightarrow> 'a list list" where
  "chunks n xs = (if n = 0 \<or> xs = [] then [] else take n xs # chunks n (drop n xs))"
  by pat_completeness auto
termination
  by (relation "measure (\<lambda>(n, xs). length xs)") auto

declare chunks.simps [simp del]

definition chunkArray :: "'a list \<Rightarrow> nat \<Rightarrow> 'a list list option" where
  "chunkArray array sz = (if sz = 0 \<and> array \<noteq> [] then None else Some (chunks sz array))"

text \<open>
  What an asynchronous method does for its caller: it never settles because a loop does
  not end (\<open>Hangs\<close>), it never settles because the Node process is ended by a promise
  rejection that nothing handles (\<open>Crashes\<close>, with the reason), it rejects with an error
  message, or it resolves with a value.
\<close>

datatype 'a completion = Hangs | Crashes string | Rejects string | Resolves 'a

text \<open>A loop body that updates a state and yields one output per element.\<close>

fun mapAccum :: "('s \<Rightarrow> 'a \<Rightarrow> 's \<times> 'b) \<Rightarrow> 's \<Rightarrow> 'a list \<Rightarrow> 's \<times> 'b list" where
  "mapAccum f s [] = (s, [])"
| "mapAccum f s (x # xs) =
     (case f s x of (s1, y) \<Rightarrow>
        (case mapAccum f s1 xs of (s2, ys) \<Rightarrow> (s2, y # ys)))"

text \<open>\<open>count / total\<close>, defined as 0 when \<open>total\<close> is 0.\<close>

definition rate :: "nat \<Rightarrow> nat \<Rightarrow> rat" where
  "rate n tot = (if tot > 0 then of_nat n / of_nat tot else 0)"

text \<open>Decimal text of a number, as a template literal prints it.\<close>

fun digitsOf :: "nat \<Rightarrow> nat \<Rightarrow> string" where
  "digitsOf 0 n = []"
| "digitsOf (Suc fuel) n =
     (if n < 10 then [char_of (48 + n)]
      else digitsOf fuel (n div 10) @ [char_of (48 + n mod 10)])"

definition showNat :: "nat \<Rightarrow> string" where
  "showNat n = digitsOf (Suc n) n"

subsection \<open>Strings\<close>

text \<open>
  White space and line terminators of ECMAScript, as \<open>String.prototype.trim\<close> strips
  them, by code unit.
\<close>

definition isWhiteSpace :: "nat \<Rightarrow> bool" where
  "isWhiteSpace c =
     (c \<in> {9, 10, 11, 12, 13, 32, 160, 5760, 8232, 8233, 8239, 8287, 12288, 65279}
      \<or> (8192 \<le> c \<and> c \<le> 8202))"

definition trim :: "jstring \<Rightarrow> jstring" where
  "trim s = rev (dropWhile isWhiteSpace (rev (dropWhile isWhiteSpace s)))"

text \<open>\<open>!s || s.trim().length === 0\<close> on an optional string.\<close>

definition blank :: "jstring option \<Rightarrow> bool" where
  "blank s = (case s of None \<Rightarrow> True | Some t \<Rightarrow> t = [] \<or> trim t = [])"

text \<open>\<open>`${v}`\<close> for an optional string: \<open>undefined\<close> prints as the word.\<close>

definition templateStr :: "jstring option \<Rightarrow> jstring" where
  "templateStr v = (case v of None \<Rightarrow> js ''undefined'' | Some s \<Rightarrow> s)"

section \<open>AI service (OpenAIService, src/services/feishu-client.js)\<close>

subsection \<open>splitContent and splitIntoSentences\<close>

text \<open>The code units of the ideographic full stop, the fullwidth ! and ?, and line feed.\<close>

definition fullStop :: nat where "fullStop = 12290"

definition isSentenceEnd :: "nat \<Rightarrow> bool" where
  "isSentenceEnd c = (c = 12290 \<or> c = 65281 \<or> c = 65311 \<or> c = 10)"

text \<open>
  \<open>text.split(/[...]/)\<close> with a one-character class: the pieces between the delimiters,
  empty pieces included. The result is never the empty list.
\<close>

fun splitOn :: "(nat \<Rightarrow> bool) \<Rightarrow> jstring \<Rightarrow> jstring list" where
  "splitOn p [] = [[]]"
| "splitOn p (c # cs) =
     (if p c then [] # splitOn p cs
      else (case splitOn p cs of
              [] \<Rightarrow> [[c]]
            | w # ws \<Rightarrow> (c # w) # ws))"

definition splitIntoSentences :: "jstring \<Rightarrow> jstring list" where
  "splitIntoSentences text =
     map (\<lambda>s. trim s @ [fullStop]) (filter (\<lambda>s. trim s \<noteq> []) (splitOn isSentenceEnd text))"

text \<open>\<open>Math.ceil(content.length * 1.5)\<close>.\<close>

definition estimateTokens :: "jstring \<Rightarrow> nat" where
  "estimateTokens s = (3 * length s + 1) div 2"

text \<open>The body of the \<open>for (const sentence of sentences)\<close> loop on \<open>(chunks, currentChunk)\<close>.\<close>

definition splitStep ::
  "nat \<Rightarrow> jstring list \<times> jstring \<Rightarrow> jstring \<Rightarrow> jstring list \<times> jstring" where
  "splitStep maxTokens acc sentence =
     (case acc of (cs, currentChunk) \<Rightarrow>
        let potentialChunk = currentChunk @ sentence in
        if estimateTokens potentialChunk > maxTokens \<and> currentChunk \<noteq> []
        then (cs @ [trim currentChunk], sentence)
        else (cs, potentialChunk))"

definition splitContent :: "jstring \<Rightarrow> nat \<Rightarrow> jstring list" where
  "splitContent content maxTokens =
     (if estimateTokens content \<le> maxTokens then [content]
      else
        (case foldl (splitStep maxTokens) ([], []) (splitIntoSentences content) of
           (cs, currentChunk) \<Rightarrow>
             if currentChunk \<noteq> [] then cs @ [trim currentChunk] else cs))"

subsection \<open>processDocumentAI\<close>

text \<open>
  The four model requests of \<open>processDocumentAI\<close> are calls to the external AI
  collaborator: each either rejects (after its retries) or resolves with the trimmed text
  of the answer (the keyword request with the parsed list).
\<close>

record ai_service =
  generateTitle :: "jstring \<Rightarrow> jstring \<Rightarrow> string + jstring"
  generateSummary :: "jstring \<Rightarrow> string + jstring"
  extractKeywords :: "jstring \<Rightarrow> string + jstring list"
  classifyContent :: "jstring \<Rightarrow> string + jstring"
  embeddingsCreate :: "jstring \<Rightarrow> string + rat list option"

text \<open>The default category, the two code units of the word for "other".\<close>

definition categoryOther :: jstring where
  "categoryOther = [20854, 20182]"

definition degradedAi :: "jstring \<Rightarrow> string \<Rightarrow> ai_results" where
  "degradedAi originalTitle err =
     \<lparr>ar_ai_title = Some (Some originalTitle), ar_summary = Some (Some []),
      ar_keywords = Some (Some []), ar_category = Some (Some categoryOther),
      ar_error = Some (Some err)\<rparr>"

text \<open>
  \<open>processDocumentAI(content, originalTitle = '')\<close>: never throws; when a request rejects
  (or \<open>content\<close> is not a string) the \<open>catch\<close> block returns the degraded result with
  the error. Of several rejected requests the first in array order is reported.
\<close>

definition processDocumentAI ::
  "ai_service \<Rightarrow> jstring option \<Rightarrow> jstring option \<Rightarrow> ai_results" where
  "processDocumentAI svc content originalTitle =
     (let ot = (case originalTitle of None \<Rightarrow> [] | Some t \<Rightarrow> t) in
      case content of
        None \<Rightarrow> degradedAi ot ''Cannot read properties of undefined (reading 'substring')''
      | Some c \<Rightarrow>
          (case generateTitle svc c ot of
             Inl err \<Rightarrow> degradedAi ot err
           | Inr t \<Rightarrow>
               (case generateSummary svc c of
                  Inl err \<Rightarrow> degradedAi ot err
                | Inr sm \<Rightarrow>
                    (case extractKeywords svc c of
                       Inl err \<Rightarrow> degradedAi ot err
                     | Inr ks \<Rightarrow>
                         (case classifyContent svc c of
                            Inl err \<Rightarrow> degradedAi ot err
                          | Inr cat \<Rightarrow>
                              \<lparr>ar_ai_title = Some (Some (if trim t = [] then ot else trim t)),
                               ar_summary = Some (Some (trim sm)),
                               ar_keywords = Some (Some ks),
                               ar_category =
                                 Some (Some (if trim cat = [] then categoryOther else trim cat)),
                               ar_error = None\<rparr>)))))"

subsection \<open>generateEmbedding\<close>

text \<open>
  \<open>generateEmbedding(text, maxRetries = 3)\<close>: the request is made on the first 8000 code
  units; a failure is retried while \<open>maxRetries > 0\<close>.
\<close>

definition embeddingAttempt :: "ai_service \<Rightarrow> jstring \<Rightarrow> string + rat list" where
  "embeddingAttempt svc text =
     (case embeddingsCreate svc (take 8000 text) of
        Inl err \<Rightarrow> Inl err
      | Inr None \<Rightarrow> Inl ''No embedding data received''
      | Inr (Some e) \<Rightarrow> Inr e)"

fun generateEmbedding :: "ai_service \<Rightarrow> jstring \<Rightarrow> nat \<Rightarrow> string + rat list" where
  "generateEmbedding svc text 0 = embeddingAttempt svc text"
| "generateEmbedding svc text (Suc k) =
     (case embeddingAttempt svc text of
        Inr e \<Rightarrow> Inr e
      | Inl err \<Rightarrow> generateEmbedding svc text k)"

text \<open>
  \<open>await this.generateEmbedding(text)\<close> as \<open>batchGenerateEmbeddings\<close> calls it, with the
  default of three retries; a text that is not a string throws on \<open>text.substring\<close> in
  every attempt.
\<close>

definition embedText :: "ai_service \<Rightarrow> jstring option \<Rightarrow> string + rat list" where
  "embedText svc t =
     (case t of
        None \<Rightarrow> Inl ''Cannot read properties of undefined (reading 'substring')''
      | Some s \<Rightarrow> generateEmbedding svc s 3)"

section \<open>Enrichment stage (CleanStage, src/stages/clean-stage.js)\<close>

text \<open>
  The three stages log through \<open>this.logger\<close>. Logging is left out of the model: the
  logger is an outside collaborator, and a stage is modelled as run with a logger that has
  the methods the stage calls. (The object that the repository's own
  \<open>getLogger(config).child(...)\<close> returns has no \<open>logPipelineStart\<close> and no
  \<open>logPipelineError\<close>; with that logger every \<open>execute\<close> rejects before it looks at
  its options.)
\<close>

record clean_stats =
  totalDocuments :: nat
  aiProcessedDocuments :: nat
  cachedDocuments :: nat
  splitDocuments :: nat
  failedDocuments :: nat

definition resetCleanStats :: clean_stats where
  "resetCleanStats =
     \<lparr>totalDocuments = 0, aiProcessedDocuments = 0, cachedDocuments = 0,
      splitDocuments = 0, failedDocuments = 0\<rparr>"

text \<open>
  \<open>{ ...document, ...aiResults }\<close>: every key the AI results have overrides the
  document's field, also when its value is \<open>undefined\<close> or \<open>null\<close>; a key they do
  not have leaves the document's field as it is.
\<close>

definition mergeAiResults :: "document \<Rightarrow> ai_results \<Rightarrow> document" where
  "mergeAiResults d ai =
     d\<lparr>ai_title := (case ar_ai_title ai of None \<Rightarrow> ai_title d | Some v \<Rightarrow> v),
       summary := (case ar_summary ai of None \<Rightarrow> summary d | Some v \<Rightarrow> v),
       doc_keywords := (case ar_keywords ai of None \<Rightarrow> doc_keywords d | Some v \<Rightarrow> v),
       category := (case ar_category ai of None \<Rightarrow> category d | Some v \<Rightarrow> v),
       doc_error := (case ar_error ai of None \<Rightarrow> doc_error d | Some v \<Rightarrow> v)\<rparr>"

text \<open>
  The asynchronous function that \<open>processDocumentsWithAI\<close> maps over a batch, on the
  stage's statistics and the cache. \<open>batch.map\<close> starts the calls of a batch together:
  each issues its cache read at once and writes only after its AI requests, so every read
  of a batch sees the cache as it was when the batch started (\<open>c0\<close>), also for a
  document id that occurs twice in the batch. The writes and the counters are applied in
  array order. The only operation of the \<open>try\<close> block that can throw
  is \<open>updateAIResults\<close> (\<open>getCachedDocument\<close> and \<open>processDocumentAI\<close> catch their own
  errors), and the function's own \<open>catch\<close> block cannot throw, so the promise never
  rejects and the \<open>rejected\<close> branch of the \<open>allSettled\<close> loop is not reached.
\<close>

definition enrichDocument ::
  "ai_service \<Rightarrow> int \<Rightarrow> bool \<Rightarrow> cache \<Rightarrow> clean_stats \<times> cache \<Rightarrow> document \<Rightarrow>
   (clean_stats \<times> cache) \<times> document" where
  "enrichDocument svc now force c0 st d =
     (case st of (stats, c) \<Rightarrow>
        (case (if force then None
               else (case getCachedDocument c0 (doc_id d) of
                       None \<Rightarrow> None
                     | Some e \<Rightarrow> aiResults e)) of
           Some cachedAi \<Rightarrow>
             ((stats\<lparr>cachedDocuments := cachedDocuments stats + 1\<rparr>, c),
              (mergeAiResults d cachedAi)\<lparr>cached := Some True\<rparr>)
         | None \<Rightarrow>
             (let ai = processDocumentAI svc (doc_content d) (doc_title d) in
              case updateAIResults now c (doc_id d) ai of
                Inr c' \<Rightarrow>
                  ((stats\<lparr>aiProcessedDocuments := aiProcessedDocuments stats + 1\<rparr>, c'),
                   (mergeAiResults d ai)\<lparr>cached := Some False\<rparr>)
              | Inl err \<Rightarrow>
                  ((stats\<lparr>failedDocuments := failedDocuments stats + 1\<rparr>, c),
                   d\<lparr>ai_title := doc_title d, summary := Some [], doc_keywords := Some [],
                     category := Some categoryOther, cached := Some False,
                     doc_error := Some err\<rparr>))))"

text \<open>
  The loop over the batches of \<open>processDocumentsWithAI\<close>: a batch starts on the cache
  the batches before it have left; its results are cut into windows of \<open>maxConcurrent\<close>
  and pushed window by window.
\<close>

fun enrichBatches ::
  "ai_service \<Rightarrow> int \<Rightarrow> bool \<Rightarrow> nat \<Rightarrow> document list list \<Rightarrow> clean_stats \<times> cache \<Rightarrow>
   ((clean_stats \<times> cache) \<times> document list) option" where
  "enrichBatches svc now force maxConcurrent [] st = Some (st, [])"
| "enrichBatches svc now force maxConcurrent (batch # rest) st =
     (case mapAccum (enrichDocument svc now force (snd st)) st batch of
        (st1, batchResults) \<Rightarrow>
          (case chunkArray batchResults maxConcurrent of
             None \<Rightarrow> None
           | Some concurrentBatches \<Rightarrow>
               (case enrichBatches svc now force maxConcurrent rest st1 of
                  None \<Rightarrow> None
                | Some (st2, later) \<Rightarrow> Some (st2, concat concurrentBatches @ later))))"

definition processDocumentsWithAI ::
  "ai_service \<Rightarrow> int \<Rightarrow> clean_stats \<times> cache \<Rightarrow> document list \<Rightarrow> bool \<Rightarrow> nat \<Rightarrow> nat \<Rightarrow>
   ((clean_stats \<times> cache) \<times> document list) option" where
  "processDocumentsWithAI svc now st documents force batchSize maxConcurrent =
     (case chunkArray documents batchSize of
        None \<Rightarrow> None
      | Some batches \<Rightarrow> enrichBatches svc now force maxConcurrent batches st)"

text \<open>The chunk documents of a split document (\<open>chunks.map((chunk, index) => ...)\<close>).\<close>

definition chunkDocument :: "document \<Rightarrow> nat \<Rightarrow> nat \<Rightarrow> jstring \<Rightarrow> document" where
  "chunkDocument d n index chunk =
     d\<lparr>doc_id := doc_id d @ ''_part'' @ showNat (index + 1),
       doc_content := Some chunk,
       is_split_part := Some (showNat (index + 1) @ ''/'' @ showNat n),
       original_file := Some (doc_id d),
       doc_title := Some (templateStr (orStr (ai_title d) (doc_title d)) @
                          js '' (Part '' @ js (showNat (index + 1)) @ js '')'')\<rparr>"

text \<open>
  The function that \<open>splitLargeDocuments\<close> maps over a batch: the documents that replace
  one document, and whether it was split.
\<close>

definition splitDocument :: "nat \<Rightarrow> document \<Rightarrow> document list" where
  "splitDocument maxTokens d =
     (let content = (case doc_content d of None \<Rightarrow> [] | Some c \<Rightarrow> c);
          cs = splitContent content maxTokens
      in if length cs > 1
         then map (\<lambda>(index, chunk). chunkDocument d (length cs) index chunk)
                (zip [0..<length cs] cs)
         else [d])"

definition wasSplit :: "nat \<Rightarrow> document \<Rightarrow> bool" where
  "wasSplit maxTokens d =
     (length (splitContent (case doc_content d of None \<Rightarrow> [] | Some c \<Rightarrow> c) maxTokens) > 1)"

record clean_config =
  documentSplitSize :: "nat option"

definition splitLargeDocuments ::
  "clean_config \<Rightarrow> clean_stats \<Rightarrow> document list \<Rightarrow> nat \<Rightarrow> (clean_stats \<times> document list) option" where
  "splitLargeDocuments cfg stats documents batchSize =
     (let maxTokens = orDefault (documentSplitSize cfg) 7000 in
      case chunkArray documents batchSize of
        None \<Rightarrow> None
      | Some batches \<Rightarrow>
          Some (foldl (\<lambda>(s, out) batch.
                   (s\<lparr>splitDocuments := splitDocuments s + length (filter (wasSplit maxTokens) batch)\<rparr>,
                    out @ concat (map (splitDocument maxTokens) batch)))
                 (stats, []) batches))"

text \<open>
  \<open>validateAndCleanDocuments\<close>. A document with empty content is skipped with
  \<open>continue\<close>; the statistics are touched only in the \<open>catch\<close> block, which the typed
  fields never reach (no operation of the \<open>try\<close> block throws on strings and lists), so
  the pass leaves the statistics as they are.
\<close>

definition cleanDocument :: "document \<Rightarrow> document" where
  "cleanDocument d =
     d\<lparr>ai_title := (if blank (ai_title d)
                     then Some (orStrDefault (doc_title d) (js ''Untitled Document''))
                     else ai_title d),
       doc_keywords := (case doc_keywords d of None \<Rightarrow> Some [] | Some ks \<Rightarrow> Some ks),
       wordCount := Some (length (case doc_content d of None \<Rightarrow> [] | Some c \<Rightarrow> c))\<rparr>"

definition validateAndCleanDocuments :: "document list \<Rightarrow> document list" where
  "validateAndCleanDocuments documents =
     map cleanDocument (filter (\<lambda>d. \<not> blank (doc_content d)) documents)"

record clean_result =
  cr_stage :: string
  cr_success :: bool
  cr_stats :: clean_stats
  cr_finalDocumentCount :: nat
  cr_aiProcessingRate :: rat
  cr_cacheHitRate :: rat
  cr_documents :: "document list"
  cr_errors :: "(string \<times> string) list"

text \<open>\<open>getResults(startTime, documents)\<close> for a document list.\<close>

definition cleanGetResults :: "clean_stats \<Rightarrow> document list \<Rightarrow> clean_result" where
  "cleanGetResults stats documents =
     (let cleanedDocuments = validateAndCleanDocuments documents in
      \<lparr>cr_stage = ''clean'', cr_success = True, cr_stats = stats,
       cr_finalDocumentCount = length cleanedDocuments,
       cr_aiProcessingRate = rate (aiProcessedDocuments stats) (totalDocuments stats),
       cr_cacheHitRate = rate (cachedDocuments stats) (totalDocuments stats),
       cr_documents = cleanedDocuments,
       cr_errors =
         List.map_filter
           (\<lambda>d. case doc_error d of
                  None \<Rightarrow> None
                | Some err \<Rightarrow> if err = [] then None else Some (doc_id d, err))
           documents\<rparr>)"

text \<open>
  \<open>CleanStage.execute\<close>, on the cache: the result and the cache afterwards. With no
  documents (\<open>null\<close> or an empty list) the stage calls \<open>getResults(startTime)\<close> without a
  document list, and \<open>validateAndCleanDocuments\<close> throws on iterating \<open>undefined\<close>; the
  error leaves \<open>execute\<close> through its \<open>catch\<close> block.
\<close>

definition cleanExecute ::
  "ai_service \<Rightarrow> clean_config \<Rightarrow> int \<Rightarrow> cache \<Rightarrow> document list option \<Rightarrow> bool \<Rightarrow> nat \<Rightarrow> nat \<Rightarrow>
   (clean_result \<times> cache) completion" where
  "cleanExecute svc cfg now c documents force batchSize maxConcurrentAiRequests =
     (case documents of
        None \<Rightarrow> Rejects ''documents is not iterable''
      | Some [] \<Rightarrow> Rejects ''documents is not iterable''
      | Some docs \<Rightarrow>
          (let stats = resetCleanStats\<lparr>totalDocuments := length docs\<rparr> in
           case processDocumentsWithAI svc now (stats, c) docs force batchSize
                  maxConcurrentAiRequests of
             None \<Rightarrow> Hangs
           | Some ((stats1, c1), aiDocuments) \<Rightarrow>
               (case splitLargeDocuments cfg stats1 aiDocuments batchSize of
                  None \<Rightarrow> Hangs
                | Some (stats2, finalDocuments) \<Rightarrow>
                    Resolves (cleanGetResults stats2 finalDocuments, c1))))"

subsection \<open>Example collaborators of the stages\<close>

text \<open>
  An AI collaborator that answers every text request and fails the embedding request for
  the text \<open>bad\<close>.
\<close>

definition demoAi :: ai_service where
  "demoAi =
     \<lparr>generateTitle = (\<lambda>c t. Inr (js ''AI Title'')),
      generateSummary = (\<lambda>c. Inr (js ''Summary'')),
      extractKeywords = (\<lambda>c. Inr [js ''k'']),
      classifyContent = (\<lambda>c. Inr (js ''API'')),
      embeddingsCreate = (\<lambda>t. if t = js ''bad'' then Inl ''rate limit'' else Inr (Some [1, 2]))\<rparr>"

definition demoCleanConfig :: clean_config where
  "demoCleanConfig = \<lparr>documentSplitSize = Some 1000\<rparr>"

subsection \<open>Predicates used in the proofs about splitContent\<close>

text \<open>
  A string is solid when it is not empty and neither starts nor ends with white space:
  \<open>trim\<close> leaves it as it is. \<open>grouped\<close> is the invariant of the sentence loop: the
  sentences seen so far are the finished chunks followed by the current chunk, each a
  run of whole sentences, and a run of more than one sentence is within the threshold.
\<close>

definition solid :: "jstring \<Rightarrow> bool" where
  "solid s = (s \<noteq> [] \<and> \<not> isWhiteSpace (hd s) \<and> \<not> isWhiteSpace (last s))"

definition grouped :: "nat \<Rightarrow> jstring list \<Rightarrow> jstring list \<times> jstring \<Rightarrow> bool" where
  "grouped maxTokens seen acc =
     (\<exists>gs g. seen = concat gs @ g \<and> fst acc = map concat gs \<and> snd acc = concat g \<and>
        (\<forall>x \<in> set gs. x \<noteq> [] \<and> (estimateTokens (concat x) \<le> maxTokens \<or> length x = 1)) \<and>
        (estimateTokens (concat g) \<le> maxTokens \<or> length g \<le> 1))"

section \<open>Indexing stage (UploadStage, src/stages/clean-stage.js)\<close>

record upload_stats =
  up_totalDocuments :: nat
  up_embeddedDocuments :: nat
  up_indexedDocuments :: nat
  up_cachedEmbeddings :: nat
  up_failedDocuments :: nat

definition resetUploadStats :: upload_stats where
  "resetUploadStats =
     \<lparr>up_totalDocuments = 0, up_embeddedDocuments = 0, up_indexedDocuments = 0,
      up_cachedEmbeddings = 0, up_failedDocuments = 0\<rparr>"

text \<open>
  The width of the \<open>embedding\<close> field in the index mapping
  (\<open>dims: 1536\<close> in \<open>createIndex\<close>, src/services/elasticsearch-client.js) and the
  placeholder of the stage, \<open>new Array(1536).fill(0)\<close>.
\<close>

definition embeddingDims :: nat where
  "embeddingDims = 1536"

definition zeroVector :: "rat list" where
  "zeroVector = replicate 1536 0"

text \<open>
  The cache check of \<open>generateEmbeddings\<close>:
  \<open>cached && cached.embedding && cached.embedding.length > 0\<close>, skipped when forced.
\<close>

definition cachedEmbedding :: "cache \<Rightarrow> bool \<Rightarrow> document \<Rightarrow> rat list option" where
  "cachedEmbedding c force d =
     (if force then None
      else (case getCachedDocument c (doc_id d) of
              None \<Rightarrow> None
            | Some e \<Rightarrow>
                (case ce_embedding e of
                   None \<Rightarrow> None
                 | Some v \<Rightarrow> if v = [] then None else Some v)))"

text \<open>
  \<open>batchGenerateEmbeddings(texts, concurrency)\<close>. The texts are cut into windows of
  \<open>concurrency\<close>. A text that is not a string makes the \<open>catch\<close> block of its own
  asynchronous function throw (\<open>text.substring\<close>), so the whole call rejects; otherwise
  every text gets a result, in order: the embedding or the error of the last attempt.
\<close>

definition batchGenerateEmbeddings ::
  "ai_service \<Rightarrow> jstring option list \<Rightarrow> nat \<Rightarrow> (string + rat list) list completion" where
  "batchGenerateEmbeddings svc texts concurrency =
     (case chunkArray texts concurrency of
        None \<Rightarrow> Hangs
      | Some batches \<Rightarrow>
          if None \<in> set (concat batches)
          then Rejects ''Cannot read properties of undefined (reading 'substring')''
          else Resolves (map (embedText svc) (concat batches)))"

text \<open>The merge step of \<open>generateEmbeddings\<close> for one document and its result.\<close>

definition withEmbedding :: "document \<Rightarrow> string + rat list \<Rightarrow> document" where
  "withEmbedding d result =
     (case result of
        Inr e \<Rightarrow> d\<lparr>embedding := Some e, cached := Some False\<rparr>
      | Inl err \<Rightarrow>
          d\<lparr>embedding := Some zeroVector, cached := Some False, embeddingError := Some err\<rparr>)"

definition isEmbedded :: "string + rat list \<Rightarrow> bool" where
  "isEmbedded result = (case result of Inr _ \<Rightarrow> True | Inl _ \<Rightarrow> False)"

definition generateEmbeddings ::
  "ai_service \<Rightarrow> cache \<Rightarrow> upload_stats \<Rightarrow> document list \<Rightarrow> bool \<Rightarrow> nat \<Rightarrow>
   (upload_stats \<times> document list) completion" where
  "generateEmbeddings svc c stats documents force maxConcurrent =
     (let fromCache =
            map (\<lambda>d. d\<lparr>embedding := cachedEmbedding c force d, cached := Some True\<rparr>)
              (filter (\<lambda>d. cachedEmbedding c force d \<noteq> None) documents);
          textsToEmbed = filter (\<lambda>d. cachedEmbedding c force d = None) documents;
          stats1 = stats\<lparr>up_cachedEmbeddings := up_cachedEmbeddings stats + length fromCache\<rparr>
      in if textsToEmbed = [] then Resolves (stats1, fromCache)
         else
           (case batchGenerateEmbeddings svc (map doc_content textsToEmbed) maxConcurrent of
              Hangs \<Rightarrow> Hangs
            | Crashes err \<Rightarrow> Crashes err
            | Rejects err \<Rightarrow> Rejects err
            | Resolves embeddingResults \<Rightarrow>
                Resolves
                  (stats1\<lparr>up_embeddedDocuments := up_embeddedDocuments stats1 +
                            length (filter isEmbedded embeddingResults),
                          up_failedDocuments := up_failedDocuments stats1 +
                            length (filter (\<lambda>r. \<not> isEmbedded r) embeddingResults)\<rparr>,
                   fromCache @ map (\<lambda>(d, r). withEmbedding d r)
                                 (zip textsToEmbed embeddingResults))))"

text \<open>
  The search index client. \<open>bulkIndexDocuments(batch)\<close> sends one bulk request with all
  documents of the batch; the request either throws or answers with one item per
  document, an item carrying an error or not. The success count is the number of items
  without error.
\<close>

type_synonym search_index = "document list \<Rightarrow> string + string option list"

definition bulkIndexDocuments :: "search_index \<Rightarrow> document list \<Rightarrow> string + nat" where
  "bulkIndexDocuments es batch =
     (case es batch of
        Inl err \<Rightarrow> Inl err
      | Inr items \<Rightarrow> Inr (length (filter (\<lambda>item. item = None) items)))"

text \<open>The body of the batch loop of \<open>buildElasticsearchIndex\<close>.\<close>

definition indexBatch :: "search_index \<Rightarrow> upload_stats \<Rightarrow> document list \<Rightarrow> upload_stats" where
  "indexBatch es stats batch =
     (case bulkIndexDocuments es batch of
        Inr success \<Rightarrow> stats\<lparr>up_indexedDocuments := up_indexedDocuments stats + success\<rparr>
      | Inl err \<Rightarrow> stats\<lparr>up_failedDocuments := up_failedDocuments stats + length batch\<rparr>)"

text \<open>
  \<open>buildElasticsearchIndex\<close>: the statistics afterwards and the batches that were sent
  to the index, in order.
\<close>

definition buildElasticsearchIndex ::
  "search_index \<Rightarrow> upload_stats \<Rightarrow> document list \<Rightarrow> nat \<Rightarrow>
   (upload_stats \<times> document list list) option" where
  "buildElasticsearchIndex es stats documents batchSize =
     (if documents = [] then Some (stats, [])
      else (case chunkArray documents batchSize of
              None \<Rightarrow> None
            | Some batches \<Rightarrow> Some (foldl (indexBatch es) stats batches, batches)))"

text \<open>
  The cache operation \<open>updateCache\<close> builds for a document. Its \<open>aiResults\<close> object
  has the four keys whatever the document holds.
\<close>

definition cacheOperation ::
  "document \<Rightarrow> document \<times> processed_content option \<times> ai_results option" where
  "cacheOperation d =
     (d,
      Some \<lparr>pc_title = orStr (ai_title d) (doc_title d), pc_content = doc_content d,
            pc_summary = summary d, pc_keywords = doc_keywords d, pc_category = category d\<rparr>,
      Some \<lparr>ar_ai_title = Some (ai_title d), ar_summary = Some (summary d),
            ar_keywords = Some (doc_keywords d), ar_category = Some (category d),
            ar_error = None\<rparr>)"

text \<open>\<open>updateCache\<close>: a batch whose write fails is logged and skipped.\<close>

definition updateCache ::
  "platform \<Rightarrow> int \<Rightarrow> cache \<Rightarrow> document list \<Rightarrow> nat \<Rightarrow> cache option" where
  "updateCache rt now c documents batchSize =
     (let documentsToCache =
            filter (\<lambda>d. cached d \<noteq> Some True \<and>
                        (embeddingError d = None \<or> embeddingError d = Some [])) documents
      in if documentsToCache = [] then Some c
         else (case chunkArray documentsToCache batchSize of
                 None \<Rightarrow> None
               | Some batches \<Rightarrow>
                   Some (foldl (\<lambda>c1 batch.
                            case batchCacheDocuments rt now c1 (map cacheOperation batch) of
                              Inr c2 \<Rightarrow> c2
                            | Inl err \<Rightarrow> c1) c batches)))"

record upload_result =
  ur_stage :: string
  ur_success :: bool
  ur_stats :: upload_stats
  ur_embeddingGenerationRate :: rat
  ur_indexingSuccessRate :: rat
  ur_cacheHitRate :: rat
  ur_errors :: "(string \<times> string) list"

text \<open>
  \<open>getResults\<close>: \<open>stats.processedDocuments\<close> is never filled by this stage, so
  \<open>errors\<close> is empty.
\<close>

definition uploadGetResults :: "upload_stats \<Rightarrow> upload_result" where
  "uploadGetResults stats =
     \<lparr>ur_stage = ''upload'', ur_success = True, ur_stats = stats,
      ur_embeddingGenerationRate = rate (up_embeddedDocuments stats) (up_totalDocuments stats),
      ur_indexingSuccessRate = rate (up_indexedDocuments stats) (up_totalDocuments stats),
      ur_cacheHitRate = rate (up_cachedEmbeddings stats) (up_totalDocuments stats),
      ur_errors = []\<rparr>"

text \<open>
  \<open>UploadStage.execute\<close>: the result, the cache afterwards and the batches sent to the
  index. \<open>stats0\<close> is \<open>this.stats\<close> before the call: without documents the stage
  returns \<open>getResults\<close> before it resets its statistics. \<open>maxConcurrent\<close> is the
  option \<open>maxConcurrentEmbeddings\<close> with its default applied.
\<close>

definition uploadExecute ::
  "ai_service \<Rightarrow> search_index \<Rightarrow> platform \<Rightarrow> int \<Rightarrow> cache \<Rightarrow> upload_stats \<Rightarrow>
   document list option \<Rightarrow> bool \<Rightarrow> nat \<Rightarrow> nat \<Rightarrow>
   (upload_result \<times> cache \<times> document list list) completion" where
  "uploadExecute svc es rt now c stats0 documents force batchSize maxConcurrent =
     (case documents of
        None \<Rightarrow> Resolves (uploadGetResults stats0, c, [])
      | Some [] \<Rightarrow> Resolves (uploadGetResults stats0, c, [])
      | Some docs \<Rightarrow>
          (case generateEmbeddings svc c (resetUploadStats\<lparr>up_totalDocuments := length docs\<rparr>)
                  docs force maxConcurrent of
             Hangs \<Rightarrow> Hangs
           | Crashes err \<Rightarrow> Crashes err
           | Rejects err \<Rightarrow> Rejects err
           | Resolves (stats1, documentsWithEmbeddings) \<Rightarrow>
               (case buildElasticsearchIndex es stats1 documentsWithEmbeddings batchSize of
                  None \<Rightarrow> Hangs
                | Some (stats2, sent) \<Rightarrow>
                    (case updateCache rt now c documentsWithEmbeddings batchSize of
                       None \<Rightarrow> Hangs
                     | Some c' \<Rightarrow> Resolves (uploadGetResults stats2, c', sent)))))"

section \<open>Collection stage (CloneStage, src/stages/clean-stage.js)\<close>

text \<open>
  An entry of \<open>stats.processedDocuments\<close>: the converted document of a success, or the
  listed document and the error of a failure.
\<close>

datatype processed_entry =
    ProcessedOk document
  | ProcessedFailed source_document string

fun entrySuccess :: "processed_entry \<Rightarrow> bool" where
  "entrySuccess (ProcessedOk _) = True"
| "entrySuccess (ProcessedFailed _ _) = False"

record clone_stats =
  cl_totalDocuments :: nat
  cl_newDocuments :: nat
  cl_updatedDocuments :: nat
  cl_cachedDocuments :: nat
  cl_failedDocuments :: nat
  cl_processedDocuments :: "processed_entry list"

definition resetCloneStats :: clone_stats where
  "resetCloneStats =
     \<lparr>cl_totalDocuments = 0, cl_newDocuments = 0, cl_updatedDocuments = 0,
      cl_cachedDocuments = 0, cl_failedDocuments = 0, cl_processedDocuments = []\<rparr>"

text \<open>
  The collaborators of the stage: the source client (\<open>getAllDocumentsRecursively\<close>,
  \<open>getDocumentContent\<close>) and the conversion of a fetched content,
  \<open>this.documentProcessor.processDocumentSync\<close>. Each call rejects or resolves.
  (In the repository as it stands the processor class has no method of that name, so the
  call throws for every document; the conversion is a parameter all the same.)
\<close>

record 'c clone_env =
  getAllDocumentsRecursively :: "string \<Rightarrow> string + source_document list"
  getDocumentContent :: "string \<Rightarrow> string option \<Rightarrow> string + 'c"
  processDocumentSync :: "source_document \<Rightarrow> 'c \<Rightarrow> string + document"
  dateParse :: "string \<Rightarrow> int option"

text \<open>
  The asynchronous function that \<open>processDocumentsIncremental\<close> maps over a batch: the
  statistics afterwards and the document, or \<open>None\<close> for \<open>null\<close> (skipped). Nothing in
  its \<open>try\<close> block throws (\<open>getCachedDocument\<close> and \<open>isDocumentModified\<close> catch their
  own errors), so its \<open>catch\<close> block is not reached.
\<close>

definition checkDocument ::
  "(string \<Rightarrow> int option) \<Rightarrow> cache \<Rightarrow> bool \<Rightarrow> clone_stats \<Rightarrow> source_document \<Rightarrow>
   clone_stats \<times> source_document option" where
  "checkDocument parse c forceFull stats d =
     (case getCachedDocument c (sd_id d) of
        Some e \<Rightarrow>
          if \<not> forceFull
          then (if \<not> isDocumentModified parse d e
                then (stats\<lparr>cl_cachedDocuments := cl_cachedDocuments stats + 1\<rparr>, None)
                else (stats\<lparr>cl_updatedDocuments := cl_updatedDocuments stats + 1\<rparr>, Some d))
          else (stats\<lparr>cl_updatedDocuments := cl_updatedDocuments stats + 1\<rparr>, Some d)
      | None \<Rightarrow> (stats\<lparr>cl_newDocuments := cl_newDocuments stats + 1\<rparr>, Some d))"

fun checkBatches ::
  "(string \<Rightarrow> int option) \<Rightarrow> cache \<Rightarrow> bool \<Rightarrow> source_document list list \<Rightarrow> clone_stats \<Rightarrow>
   clone_stats \<times> source_document list" where
  "checkBatches parse c forceFull [] stats = (stats, [])"
| "checkBatches parse c forceFull (batch # rest) stats =
     (case mapAccum (checkDocument parse c forceFull) stats batch of
        (stats1, batchResults) \<Rightarrow>
          (case checkBatches parse c forceFull rest stats1 of
             (stats2, later) \<Rightarrow> (stats2, List.map_filter (\<lambda>x. x) batchResults @ later)))"

definition processDocumentsIncremental ::
  "(string \<Rightarrow> int option) \<Rightarrow> cache \<Rightarrow> clone_stats \<Rightarrow> source_document list \<Rightarrow> bool \<Rightarrow> nat \<Rightarrow>
   (clone_stats \<times> source_document list) option" where
  "processDocumentsIncremental parse c stats documents forceFull batchSize =
     (case chunkArray documents batchSize of
        None \<Rightarrow> None
      | Some batches \<Rightarrow> Some (checkBatches parse c forceFull batches stats))"

text \<open>One settled content request of \<open>fetchDocumentContents\<close> and its conversion.\<close>

definition fetchDocument :: "'c clone_env \<Rightarrow> source_document \<Rightarrow> processed_entry" where
  "fetchDocument env d =
     (case getDocumentContent env (sd_id d) (sd_type d) of
        Inl err \<Rightarrow> ProcessedFailed d err
      | Inr content \<Rightarrow>
          (case processDocumentSync env d content of
             Inr processed \<Rightarrow> ProcessedOk processed
           | Inl err \<Rightarrow> ProcessedFailed d err))"

definition recordEntry :: "clone_stats \<Rightarrow> processed_entry \<Rightarrow> clone_stats" where
  "recordEntry stats p =
     (if entrySuccess p
      then stats\<lparr>cl_processedDocuments := cl_processedDocuments stats @ [p]\<rparr>
      else stats\<lparr>cl_processedDocuments := cl_processedDocuments stats @ [p],
                 cl_failedDocuments := cl_failedDocuments stats + 1\<rparr>)"

text \<open>The error of the content request for a listed document, if the request rejects.\<close>

definition requestError :: "'c clone_env \<Rightarrow> source_document \<Rightarrow> string option" where
  "requestError env d =
     (case getDocumentContent env (sd_id d) (sd_type d) of
        Inl err \<Rightarrow> Some err
      | Inr content \<Rightarrow> None)"

text \<open>
  \<open>fetchDocumentContents\<close>. \<open>documents.map\<close> starts every content request before the
  batch loop; the promises are cut into batches of \<open>batchSize\<close>, and a batch gets its
  handlers only when the loop reaches it (\<open>Promise.allSettled(batch)\<close>), after every
  batch before it has settled and the pause of 100 ms that follows each. The first batch
  is reached in the same turn in which the requests were started, so its rejections are
  handled. A request of a later batch is taken to have settled by the time the loop
  reaches its batch: when it rejects, the rejection has no handler, and the Node process
  ends (the default since Node 15; the command-line runner of the repository exits on
  \<open>unhandledRejection\<close> itself). Of several such rejections the first in array order is
  reported. Otherwise the result at position \<open>index\<close> of batch \<open>i\<close> belongs to
  \<open>documents[i * batchSize + index]\<close>, which is the document the request was made for.
\<close>

definition fetchDocumentContents ::
  "'c clone_env \<Rightarrow> clone_stats \<Rightarrow> source_document list \<Rightarrow> nat \<Rightarrow>
   clone_stats completion" where
  "fetchDocumentContents env stats documents batchSize =
     (if documents = [] then Resolves stats
      else (case chunkArray (map (fetchDocument env) documents) batchSize of
              None \<Rightarrow> Hangs
            | Some batches \<Rightarrow>
                (case List.map_filter (requestError env) (drop batchSize documents) of
                   err # later \<Rightarrow> Crashes err
                 | [] \<Rightarrow>
                     Resolves (foldl (\<lambda>s batch. foldl recordEntry s batch) stats batches))))"

record clone_result =
  clr_stage :: string
  clr_success :: bool
  clr_stats :: clone_stats
  clr_successCount :: nat
  clr_cacheHitRate :: rat
  clr_documents :: "document list"
  clr_errors :: "(string \<times> string) list"

definition cloneGetResults :: "clone_stats \<Rightarrow> clone_result" where
  "cloneGetResults stats =
     \<lparr>clr_stage = ''clone'', clr_success = True, clr_stats = stats,
      clr_successCount = length (filter entrySuccess (cl_processedDocuments stats)),
      clr_cacheHitRate = rate (cl_cachedDocuments stats) (cl_totalDocuments stats),
      clr_documents =
        List.map_filter (\<lambda>p. case p of ProcessedOk d \<Rightarrow> Some d | ProcessedFailed _ _ \<Rightarrow> None)
          (cl_processedDocuments stats),
      clr_errors =
        List.map_filter
          (\<lambda>p. case p of ProcessedOk _ \<Rightarrow> None | ProcessedFailed d err \<Rightarrow> Some (sd_id d, err))
          (cl_processedDocuments stats)\<rparr>"

text \<open>The loop over the folders: a folder whose listing fails is logged and skipped.\<close>

definition collectDocuments :: "'c clone_env \<Rightarrow> string list \<Rightarrow> source_document list" where
  "collectDocuments env tokens =
     concat (map (\<lambda>folderToken.
                    case getAllDocumentsRecursively env folderToken of
                      Inr documents \<Rightarrow> documents
                    | Inl err \<Rightarrow> []) tokens)"

definition cloneExecute ::
  "'c clone_env \<Rightarrow> cache \<Rightarrow> string list \<Rightarrow> bool \<Rightarrow> nat \<Rightarrow> clone_result completion" where
  "cloneExecute env c tokens forceFull batchSize =
     (if tokens = [] then Rejects ''No folder tokens provided for document collection''
      else
        (let allDocuments = collectDocuments env tokens;
             stats = resetCloneStats\<lparr>cl_totalDocuments := length allDocuments\<rparr>
         in if allDocuments = [] then Resolves (cloneGetResults stats)
            else
              (case processDocumentsIncremental (dateParse env) c stats allDocuments forceFull
                      batchSize of
                 None \<Rightarrow> Hangs
               | Some (stats1, documentsToProcess) \<Rightarrow>
                   (case fetchDocumentContents env stats1 documentsToProcess batchSize of
                      Hangs \<Rightarrow> Hangs
                    | Crashes err \<Rightarrow> Crashes err
                    | Rejects err \<Rightarrow> Rejects err
                    | Resolves stats2 \<Rightarrow> Resolves (cloneGetResults stats2)))))"

subsection \<open>Example inputs of the Indexing and Collection stages\<close>

text \<open>A search index that accepts every document, and one whose bulk request throws.\<close>

definition acceptingIndex :: search_index where
  "acceptingIndex = (\<lambda>batch. Inr (map (\<lambda>_. None) batch))"


text \<open>A document object that has no \<open>content\<close> property.\<close>

definition documentWithoutContent :: "string \<Rightarrow> document" where
  "documentWithoutContent i = (plainDocument i [])\<lparr>doc_content := None\<rparr>"

text \<open>Five documents; the embedding request fails for the second and the fourth.\<close>

definition fiveDocuments :: "document list" where
  "fiveDocuments =
     [plainDocument ''doc1'' (js ''a''), plainDocument ''doc2'' (js ''bad''),
      plainDocument ''doc3'' (js ''c''), plainDocument ''doc4'' (js ''bad''),
      plainDocument ''doc5'' (js ''e'')]"

text \<open>
  A source with one folder holding one document whose content request fails, and a
  \<open>Date.parse\<close> that reads two ISO timestamps and nothing else.
\<close>

definition listedDocument :: "string \<Rightarrow> jstime \<Rightarrow> source_document" where
  "listedDocument i t =
     \<lparr>sd_id = i, sd_type = Some ''doc'', sd_modified_time = t, sd_updatedAt = TUndefined\<rparr>"

definition isoParse :: "string \<Rightarrow> int option" where
  "isoParse s =
     (if s = ''2024-01-01T00:00:00.000Z'' then Some 1704067200000
      else if s = ''2024-05-01T00:00:00.000Z'' then Some 1714521600000
      else None)"


text \<open>A source with one folder of two documents; the content request fails for the second.\<close>

definition secondFailingSource :: "jstring clone_env" where
  "secondFailingSource =
     \<lparr>getAllDocumentsRecursively =
        (\<lambda>folderToken.
           Inr [listedDocument ''doc1'' TUndefined, listedDocument ''doc2'' TUndefined]),
      getDocumentContent =
        (\<lambda>i ty. if i = ''doc2'' then Inl ''Get document content failed: not found''
                else Inr (js ''text'')),
      processDocumentSync = (\<lambda>d content. Inr (plainDocument (sd_id d) content)),
      dateParse = isoParse\<rparr>"

subsection \<open>Notions used in the statements about the Indexing stage\<close>

text \<open>
  The outcome of the embedding request for a document, the documents that
  \<open>generateEmbeddings\<close> serves from the cache, the batches whose bulk request the
  index rejected, and the number of documents of a batch that the index accepted.
\<close>

definition embeddingOf :: "ai_service \<Rightarrow> document \<Rightarrow> string + rat list" where
  "embeddingOf svc d = embedText svc (doc_content d)"

definition servedFromCache :: "cache \<Rightarrow> bool \<Rightarrow> document list \<Rightarrow> document list" where
  "servedFromCache c force docs =
     map (\<lambda>d. d\<lparr>embedding := cachedEmbedding c force d, cached := Some True\<rparr>)
       (filter (\<lambda>d. cachedEmbedding c force d \<noteq> None) docs)"

definition rejectedBatches :: "search_index \<Rightarrow> document list list \<Rightarrow> document list list" where
  "rejectedBatches es sent = filter (\<lambda>b. case es b of Inl _ \<Rightarrow> True | Inr _ \<Rightarrow> False) sent"

definition acceptedItems :: "search_index \<Rightarrow> document list \<Rightarrow> nat" where
  "acceptedItems es b =
     (case es b of
        Inl err \<Rightarrow> 0
      | Inr items \<Rightarrow> length (filter (\<lambda>item. item = None) items))"

section \<open>Proofs: orchestrator\<close>


lemma lastProduced_snoc:
  "lastProduced (cs @ [c]) =
     (case snd (snd c) of
        Inr r \<Rightarrow> (case sr_documents r of Some ds \<Rightarrow> Some ds | None \<Rightarrow> lastProduced cs)
      | Inl _ \<Rightarrow> lastProduced cs)"
  by (induction cs) (auto split: option.splits sum.splits)

lemma lastProduced_append:
  "lastProduced (pre @ cs) =
     (case lastProduced cs of Some ds \<Rightarrow> Some ds | None \<Rightarrow> lastProduced pre)"
  by (induction pre) (auto split: option.splits sum.splits)

lemma lastProduced_rejected:
  "\<forall>call \<in> set cs. \<exists>msg. snd (snd call) = Inl msg \<Longrightarrow> lastProduced cs = None"
  by (induction cs) auto

text \<open>
  So the document set handed on is the one of the last stage that succeeded: after a call
  that resolved and calls that were all rejected, it is the \<open>documents\<close> of the call
  that resolved (and what was handed on before it, when its result carries none).
\<close>

lemma lastProduced_last_success:
  assumes "\<forall>call \<in> set rejected. \<exists>msg. snd (snd call) = Inl msg"
  shows "lastProduced (pre @ (m, so, Inr r) # rejected) =
           (case sr_documents r of Some ds \<Rightarrow> Some ds | None \<Rightarrow> lastProduced pre)"
  using lastProduced_rejected[OF assms]
  by (simp add: lastProduced_append)

lemma stageLoop_skip:
  "name \<in> set (skipStages opts) \<Longrightarrow>
   stageLoop opts bs mc ((name, stage) # rest) st = stageLoop opts bs mc rest st"
  by simp

lemma stageLoop_resolved:
  "name \<notin> set (skipStages opts) \<Longrightarrow>
   stage (stageOptions opts bs mc name (currentDocuments st)) = Inr res \<Longrightarrow>
   stageLoop opts bs mc ((name, stage) # rest) st =
     stageLoop opts bs mc rest
       (stageSucceeded name res
          (stageStarted name (stageOptions opts bs mc name (currentDocuments st)) (Inr res) st))"
  by (simp add: Let_def)

lemma stageLoop_rejected_abort:
  "name \<notin> set (skipStages opts) \<Longrightarrow>
   stage (stageOptions opts bs mc name (currentDocuments st)) = Inl msg \<Longrightarrow>
   failFast opts \<noteq> Some False \<Longrightarrow>
   stageLoop opts bs mc ((name, stage) # rest) st =
     (Some (''Pipeline failed at stage '' @ name @ '': '' @ msg),
      stageFailed name msg
        (stageStarted name (stageOptions opts bs mc name (currentDocuments st)) (Inl msg) st))"
  by (simp add: Let_def)

lemma stageLoop_rejected_continue:
  "name \<notin> set (skipStages opts) \<Longrightarrow>
   stage (stageOptions opts bs mc name (currentDocuments st)) = Inl msg \<Longrightarrow>
   failFast opts = Some False \<Longrightarrow>
   stageLoop opts bs mc ((name, stage) # rest) st =
     stageLoop opts bs mc rest
       (stageFailed name msg
          (stageStarted name (stageOptions opts bs mc name (currentDocuments st)) (Inl msg) st))"
  by (simp add: Let_def)

lemma stageLoop_cases:
  assumes "name \<in> set (skipStages opts) \<Longrightarrow>
             P (stageLoop opts bs mc rest st)"
    and "\<And>res. name \<notin> set (skipStages opts) \<Longrightarrow>
           stage (stageOptions opts bs mc name (currentDocuments st)) = Inr res \<Longrightarrow>
           P (stageLoop opts bs mc rest
               (stageSucceeded name res
                 (stageStarted name (stageOptions opts bs mc name (currentDocuments st)) (Inr res) st)))"
    and "\<And>msg. name \<notin> set (skipStages opts) \<Longrightarrow>
           stage (stageOptions opts bs mc name (currentDocuments st)) = Inl msg \<Longrightarrow>
           failFast opts \<noteq> Some False \<Longrightarrow>
           P (Some (''Pipeline failed at stage '' @ name @ '': '' @ msg),
              stageFailed name msg
               (stageStarted name (stageOptions opts bs mc name (currentDocuments st)) (Inl msg) st))"
    and "\<And>msg. name \<notin> set (skipStages opts) \<Longrightarrow>
           stage (stageOptions opts bs mc name (currentDocuments st)) = Inl msg \<Longrightarrow>
           failFast opts = Some False \<Longrightarrow>
           P (stageLoop opts bs mc rest
               (stageFailed name msg
                 (stageStarted name (stageOptions opts bs mc name (currentDocuments st)) (Inl msg) st)))"
  shows "P (stageLoop opts bs mc ((name, stage) # rest) st)"
proof (cases "name \<in> set (skipStages opts)")
  case True
  with assms(1) show ?thesis by simp
next
  case False
  show ?thesis
  proof (cases "stage (stageOptions opts bs mc name (currentDocuments st))")
    case (Inr res)
    from assms(2)[OF False Inr] False Inr show ?thesis by (simp add: Let_def)
  next
    case (Inl msg)
    show ?thesis
    proof (cases "failFast opts = Some False")
      case True
      from assms(4)[OF False Inl True] False Inl True show ?thesis by (simp add: Let_def)
    next
      case ff: False
      from assms(3)[OF False Inl ff] False Inl ff show ?thesis by (simp add: Let_def)
    qed
  qed
qed

lemma invoked_stageSucceeded [simp]: "invoked (stageSucceeded n r st) = invoked st"
  by (simp add: stageSucceeded_def)

lemma invoked_stageFailed [simp]: "invoked (stageFailed n m st) = invoked st"
  by (simp add: stageFailed_def)

lemma invoked_stageStarted [simp]: "invoked (stageStarted n so r st) = invoked st @ [(n, so, r)]"
  by (simp add: stageStarted_def)

lemma currentDocuments_stageStarted [simp]:
  "currentDocuments (stageStarted n so r st) = currentDocuments st"
  by (simp add: stageStarted_def)

lemma currentDocuments_stageFailed [simp]:
  "currentDocuments (stageFailed n m st) = currentDocuments st"
  by (simp add: stageFailed_def)

lemma currentDocuments_stageSucceeded [simp]:
  "currentDocuments (stageSucceeded n r st) =
     (case sr_documents r of Some ds \<Rightarrow> Some ds | None \<Rightarrow> currentDocuments st)"
  by (simp add: stageSucceeded_def)

lemma stageResults_stageStarted [simp]:
  "stageResults (stageStarted n so r st) = stageResults st"
  by (simp add: stageStarted_def)

lemma stageResults_stageFailed [simp]:
  "stageResults (stageFailed n m st) = (stageResults st)(n \<mapsto> failedStage n m)"
  by (simp add: stageFailed_def)

lemma stageResults_stageSucceeded [simp]:
  "stageResults (stageSucceeded n r st) = (stageResults st)(n \<mapsto> r)"
  by (simp add: stageSucceeded_def)

lemma stageLoop_docs:
  "currentDocuments st = lastProduced (invoked st) \<Longrightarrow>
   currentDocuments (snd (stageLoop opts bs mc sl st)) =
     lastProduced (invoked (snd (stageLoop opts bs mc sl st)))"
proof (induction sl arbitrary: st)
  case Nil
  then show ?case by simp
next
  case (Cons a sl)
  obtain name stage where a: "a = (name, stage)" by (cases a)
  show ?case unfolding a
  proof (rule stageLoop_cases)
    assume "name \<in> set (skipStages opts)"
    show "currentDocuments (snd (stageLoop opts bs mc sl st)) =
          lastProduced (invoked (snd (stageLoop opts bs mc sl st)))"
      by (rule Cons.IH[OF Cons.prems])
  qed (auto intro!: Cons.IH simp: lastProduced_snoc Cons.prems split: option.splits)
qed


lemma callsOK_snoc:
  assumes "callsOK opts bs mc stg calls"
    and "so = stageOptions opts bs mc n (lastProduced calls)" and "r = stg n so"
  shows "callsOK opts bs mc stg (calls @ [(n, so, r)])"
  unfolding callsOK_def
proof (intro allI impI)
  fix pre n' so' r' post
  assume eq: "calls @ [(n, so, r)] = pre @ (n', so', r') # post"
  show "so' = stageOptions opts bs mc n' (lastProduced pre) \<and> r' = stg n' so'"
  proof (cases post rule: rev_cases)
    case Nil
    with eq have "pre = calls" "(n', so', r') = (n, so, r)" by auto
    with assms show ?thesis by simp
  next
    case (snoc post' c)
    with eq have "calls = pre @ (n', so', r') # post'" by auto
    with assms(1) show ?thesis unfolding callsOK_def by blast
  qed
qed

lemma stageLoop_callsOK:
  "callsOK opts bs mc stg (invoked st) \<Longrightarrow> currentDocuments st = lastProduced (invoked st) \<Longrightarrow>
   (\<forall>(n, f) \<in> set sl. f = stg n) \<Longrightarrow>
   callsOK opts bs mc stg (invoked (snd (stageLoop opts bs mc sl st)))"
proof (induction sl arbitrary: st)
  case Nil
  then show ?case by simp
next
  case (Cons a sl)
  obtain name stage where a: "a = (name, stage)" by (cases a)
  from Cons.prems(3) a have stg: "stage = stg name" and rest: "\<forall>(n, f) \<in> set sl. f = stg n" by auto
  let ?so = "stageOptions opts bs mc name (currentDocuments st)"
  have ok1: "callsOK opts bs mc stg (invoked st @ [(name, ?so, stage ?so)])"
    using callsOK_snoc[OF Cons.prems(1), of ?so name "stage ?so"] Cons.prems(2) stg by simp
  show ?case unfolding a
  proof (rule stageLoop_cases)
    show "callsOK opts bs mc stg (invoked (snd (stageLoop opts bs mc sl st)))"
      by (rule Cons.IH[OF Cons.prems(1,2) rest])
  next
    fix res assume "stage ?so = Inr res"
    then show "callsOK opts bs mc stg (invoked (snd (stageLoop opts bs mc sl
        (stageSucceeded name res (stageStarted name ?so (Inr res) st)))))"
      using ok1 Cons.prems(2) rest
      by (intro Cons.IH) (auto simp: lastProduced_snoc split: option.splits)
  next
    fix msg assume "stage ?so = Inl msg"
    then show "callsOK opts bs mc stg (invoked (snd (Some (''Pipeline failed at stage '' @ name @ '': '' @ msg),
        stageFailed name msg (stageStarted name ?so (Inl msg) st))))"
      using ok1 by simp
  next
    fix msg assume "stage ?so = Inl msg"
    then show "callsOK opts bs mc stg (invoked (snd (stageLoop opts bs mc sl
        (stageFailed name msg (stageStarted name ?so (Inl msg) st)))))"
      using ok1 Cons.prems(2) rest
      by (intro Cons.IH) (auto simp: lastProduced_snoc split: option.splits)
  qed
qed

lemma stageLoop_names:
  "failFast opts = Some False \<Longrightarrow>
   fst (stageLoop opts bs mc sl st) = None \<and>
   map fst (invoked (snd (stageLoop opts bs mc sl st))) =
     map fst (invoked st) @ filter (\<lambda>n. n \<notin> set (skipStages opts)) (map fst sl)"
proof (induction sl arbitrary: st)
  case Nil
  then show ?case by simp
next
  case (Cons a sl)
  obtain name stage where a: "a = (name, stage)" by (cases a)
  show ?case unfolding a
    by (rule stageLoop_cases) (use Cons.prems in \<open>auto simp: Cons.IH\<close>)
qed

lemma resultsOK_step:
  assumes "resultsOK st" and "name \<notin> fst ` set (invoked st)"
  shows "resultsOK (stageSucceeded name res (stageStarted name so (Inr res) st))"
    and "resultsOK (stageFailed name msg (stageStarted name so (Inl msg) st))"
  using assms unfolding resultsOK_def by (force simp: recorded_def)+

lemma stageLoop_results:
  "resultsOK st \<Longrightarrow> distinct (map fst sl) \<Longrightarrow> fst ` set (invoked st) \<inter> fst ` set sl = {} \<Longrightarrow>
   resultsOK (snd (stageLoop opts bs mc sl st))"
proof (induction sl arbitrary: st)
  case Nil
  then show ?case by simp
next
  case (Cons a sl)
  obtain name stage where a: "a = (name, stage)" by (cases a)
  from Cons.prems(2) a have d: "distinct (map fst sl)" and nin: "name \<notin> fst ` set sl" by auto
  from Cons.prems(3) a have nlog: "name \<notin> fst ` set (invoked st)"
    and disj: "fst ` set (invoked st) \<inter> fst ` set sl = {}" by auto
  have disj1: "\<And>so res. fst ` set (invoked (stageSucceeded name res
        (stageStarted name so (Inr res) st))) \<inter> fst ` set sl = {}"
    using disj nin by auto
  have disj2: "\<And>so msg. fst ` set (invoked (stageFailed name msg
        (stageStarted name so (Inl msg) st))) \<inter> fst ` set sl = {}"
    using disj nin by auto
  show ?case unfolding a
  proof (rule stageLoop_cases)
    show "resultsOK (snd (stageLoop opts bs mc sl st))"
      by (rule Cons.IH[OF Cons.prems(1) d disj])
  next
    fix res
    show "resultsOK (snd (stageLoop opts bs mc sl (stageSucceeded name res (stageStarted name
           (stageOptions opts bs mc name (currentDocuments st)) (Inr res) st))))"
      by (rule Cons.IH[OF resultsOK_step(1)[OF Cons.prems(1) nlog] d disj1])
  next
    fix msg
    show "resultsOK (snd (Some (''Pipeline failed at stage '' @ name @ '': '' @ msg),
        stageFailed name msg (stageStarted name
           (stageOptions opts bs mc name (currentDocuments st)) (Inl msg) st)))"
      using resultsOK_step(2)[OF Cons.prems(1) nlog] by simp
  next
    fix msg
    show "resultsOK (snd (stageLoop opts bs mc sl (stageFailed name msg (stageStarted name
           (stageOptions opts bs mc name (currentDocuments st)) (Inl msg) st))))"
      by (rule Cons.IH[OF resultsOK_step(2)[OF Cons.prems(1) nlog] d disj2])
  qed
qed

lemma stageLoop_failFast:
  "failFast opts \<noteq> Some False \<Longrightarrow> allResolved (invoked st) \<Longrightarrow>
   (case stageLoop opts bs mc sl st of
      (None, st') \<Rightarrow> allResolved (invoked st')
    | (Some err, st') \<Rightarrow>
        (\<exists>pre n so msg. invoked st' = pre @ [(n, so, Inl msg)] \<and> allResolved pre \<and>
            err = ''Pipeline failed at stage '' @ n @ '': '' @ msg))"
proof (induction sl arbitrary: st)
  case Nil
  then show ?case by simp
next
  case (Cons a sl)
  obtain name stage where a: "a = (name, stage)" by (cases a)
  show ?case unfolding a
  proof (rule stageLoop_cases)
    show "case stageLoop opts bs mc sl st of
      (None, st') \<Rightarrow> allResolved (invoked st')
    | (Some err, st') \<Rightarrow>
        (\<exists>pre n so msg. invoked st' = pre @ [(n, so, Inl msg)] \<and> allResolved pre \<and>
            err = ''Pipeline failed at stage '' @ n @ '': '' @ msg)"
      by (rule Cons.IH[OF Cons.prems])
  next
    fix res
    have "allResolved (invoked (stageSucceeded name res (stageStarted name
           (stageOptions opts bs mc name (currentDocuments st)) (Inr res) st)))"
      using Cons.prems(2) by (auto simp: allResolved_def)
    from Cons.IH[OF Cons.prems(1) this]
    show "case stageLoop opts bs mc sl (stageSucceeded name res (stageStarted name
           (stageOptions opts bs mc name (currentDocuments st)) (Inr res) st)) of
      (None, st') \<Rightarrow> allResolved (invoked st')
    | (Some err, st') \<Rightarrow>
        (\<exists>pre n so msg. invoked st' = pre @ [(n, so, Inl msg)] \<and> allResolved pre \<and>
            err = ''Pipeline failed at stage '' @ n @ '': '' @ msg)" .
  next
    fix msg
    show "case (Some (''Pipeline failed at stage '' @ name @ '': '' @ msg),
        stageFailed name msg (stageStarted name
           (stageOptions opts bs mc name (currentDocuments st)) (Inl msg) st)) of
      (None, st') \<Rightarrow> allResolved (invoked st')
    | (Some err, st') \<Rightarrow>
        (\<exists>pre n so msg. invoked st' = pre @ [(n, so, Inl msg)] \<and> allResolved pre \<and>
            err = ''Pipeline failed at stage '' @ n @ '': '' @ msg)"
      using Cons.prems(2) by auto
  next
    fix msg assume "failFast opts = Some False"
    with Cons.prems(1) show "case stageLoop opts bs mc sl (stageFailed name msg (stageStarted name
           (stageOptions opts bs mc name (currentDocuments st)) (Inl msg) st)) of
      (None, st') \<Rightarrow> allResolved (invoked st')
    | (Some err, st') \<Rightarrow>
        (\<exists>pre n so msg. invoked st' = pre @ [(n, so, Inl msg)] \<and> allResolved pre \<and>
            err = ''Pipeline failed at stage '' @ n @ '': '' @ msg)" by simp
  qed
qed


lemma executePipeline_resolves:
  assumes "folderTokens opts \<noteq> []"
    and "stageLoop opts (batchSizeOf cfg opts) (maxConcurrentOf cfg opts)
           [(''clone'', stage_clone stages), (''clean'', stage_clean stages),
            (''upload'', stage_upload stages)]
           (st0\<lparr>isRunning := True, stageResults := Map.empty,
                currentDocuments := None, invoked := []\<rparr>) = (None, st')"
  shows "executePipeline cfg stages st0 opts =
           (st'\<lparr>overallStats := Some (calculateOverallStats (stageResults st')),
                isRunning := False\<rparr>,
            Inr (getPipelineResult (st'\<lparr>overallStats := Some (calculateOverallStats (stageResults st')),
                isRunning := False\<rparr>)))"
  using assms by (simp add: executePipeline_def Let_def)

lemma executePipeline_rejects:
  assumes "folderTokens opts \<noteq> []"
    and "stageLoop opts (batchSizeOf cfg opts) (maxConcurrentOf cfg opts)
           [(''clone'', stage_clone stages), (''clean'', stage_clean stages),
            (''upload'', stage_upload stages)]
           (st0\<lparr>isRunning := True, stageResults := Map.empty,
                currentDocuments := None, invoked := []\<rparr>) = (Some err, st')"
  shows "executePipeline cfg stages st0 opts = (st'\<lparr>isRunning := False\<rparr>, Inl err)"
  using assms by (simp add: executePipeline_def Let_def)

lemma stageFn_pipeline:
  "\<forall>(n, f) \<in> set [(''clone'', stage_clone stages), (''clean'', stage_clean stages),
            (''upload'', stage_upload stages)]. f = stageFn stages n"
  by (simp add: stageFn_def)

text \<open>
  What a run with a non-empty \<open>folderTokens\<close> does, whether or not a stage fails: under
  fail-fast a rejected stage call ends the run with the error naming the stage; with
  \<open>failFast = false\<close> the run resolves, the stages called are clone, clean, upload
  without those listed in \<open>skipStages\<close>, each call is made on the options built from
  the document set handed on so far, and its outcome is what \<open>stageResults\<close> holds.
\<close>

lemma executePipeline_stage_calls:
  assumes tokens: "folderTokens opts \<noteq> []"
  shows "(failFast opts \<noteq> Some False \<longrightarrow>
            (\<forall>n so msg. (n, so, Inl msg) \<in> set (invoked (fst (executePipeline cfg stages st0 opts))) \<longrightarrow>
               snd (executePipeline cfg stages st0 opts) =
                 Inl (''Pipeline failed at stage '' @ n @ '': '' @ msg))) \<and>
         (failFast opts = Some False \<longrightarrow>
            (\<exists>res. snd (executePipeline cfg stages st0 opts) = Inr res \<and>
                   pr_stages res = stageResults (fst (executePipeline cfg stages st0 opts))) \<and>
            map fst (invoked (fst (executePipeline cfg stages st0 opts))) =
              filter (\<lambda>n. n \<notin> set (skipStages opts)) [''clone'', ''clean'', ''upload''] \<and>
            (\<forall>pre n so r post.
               invoked (fst (executePipeline cfg stages st0 opts)) = pre @ (n, so, r) # post \<longrightarrow>
                 so = stageOptions opts (batchSizeOf cfg opts) (maxConcurrentOf cfg opts) n
                        (lastProduced pre) \<and>
                 r = stageFn stages n so \<and>
                 stageResults (fst (executePipeline cfg stages st0 opts)) n =
                   Some (case r of Inl msg \<Rightarrow> failedStage n msg | Inr x \<Rightarrow> x)))"
proof -
  let ?st = "st0\<lparr>isRunning := True, stageResults := Map.empty,
                currentDocuments := None, invoked := []\<rparr>"
  let ?sl = "[(''clone'', stage_clone stages), (''clean'', stage_clean stages),
            (''upload'', stage_upload stages)]"
  let ?bs = "batchSizeOf cfg opts" and ?mc = "maxConcurrentOf cfg opts"
  obtain e st' where loop: "stageLoop opts ?bs ?mc ?sl ?st = (e, st')"
    by (cases "stageLoop opts ?bs ?mc ?sl ?st")
  have inv: "invoked (fst (executePipeline cfg stages st0 opts)) = invoked st'"
    and res: "stageResults (fst (executePipeline cfg stages st0 opts)) = stageResults st'"
    using tokens loop by (cases e; simp add: executePipeline_def Let_def)+
  have calls: "callsOK opts ?bs ?mc (stageFn stages) (invoked st')"
    using stageLoop_callsOK[of opts ?bs ?mc "stageFn stages" ?st ?sl, OF _ _ stageFn_pipeline] loop
    by (simp add: callsOK_def)
  have results: "resultsOK st'"
    using stageLoop_results[of ?st ?sl opts ?bs ?mc] loop by (simp add: resultsOK_def)
  have A: "failFast opts \<noteq> Some False \<Longrightarrow> (n, so, Inl msg) \<in> set (invoked st') \<Longrightarrow>
      snd (executePipeline cfg stages st0 opts) =
        Inl (''Pipeline failed at stage '' @ n @ '': '' @ msg)" for n so msg
  proof -
    assume ff: "failFast opts \<noteq> Some False" and mem: "(n, so, Inl msg) \<in> set (invoked st')"
    have start: "allResolved (invoked ?st)" by (simp add: allResolved_def)
    show ?thesis
    proof (cases e)
      case None
      with stageLoop_failFast[OF ff start, of ?bs ?mc ?sl] loop
      have "allResolved (invoked st')" by simp
      with mem show ?thesis by (auto simp: allResolved_def)
    next
      case (Some err)
      with stageLoop_failFast[OF ff start, of ?bs ?mc ?sl] loop
      obtain pre n' so' msg' where l: "invoked st' = pre @ [(n', so', Inl msg')]"
        and p: "allResolved pre"
        and err: "err = ''Pipeline failed at stage '' @ n' @ '': '' @ msg'" by auto
      from mem l p have "n = n'" "msg = msg'" by (auto simp: allResolved_def)
      with err Some loop tokens show ?thesis
        by (simp add: executePipeline_def Let_def)
    qed
  qed
  have B: "failFast opts = Some False \<Longrightarrow> e = None \<and>
      map fst (invoked st') = filter (\<lambda>n. n \<notin> set (skipStages opts)) [''clone'', ''clean'', ''upload'']"
    using stageLoop_names[of opts ?bs ?mc ?sl ?st] loop by simp
  have C: "invoked st' = pre @ (n, so, r) # post \<Longrightarrow>
      so = stageOptions opts ?bs ?mc n (lastProduced pre) \<and> r = stageFn stages n so \<and>
      stageResults st' n = Some (case r of Inl msg \<Rightarrow> failedStage n msg | Inr x \<Rightarrow> x)"
    for pre n so r post
    using calls results unfolding callsOK_def resultsOK_def recorded_def by fastforce
  show ?thesis
  proof (intro conjI impI allI)
    fix n so msg
    assume "failFast opts \<noteq> Some False"
      and "(n, so, Inl msg) \<in> set (invoked (fst (executePipeline cfg stages st0 opts)))"
    then show "snd (executePipeline cfg stages st0 opts) =
        Inl (''Pipeline failed at stage '' @ n @ '': '' @ msg)"
      using A inv by simp
  next
    assume ff: "failFast opts = Some False"
    with B have "e = None" by simp
    with loop tokens show "\<exists>res. snd (executePipeline cfg stages st0 opts) = Inr res \<and>
        pr_stages res = stageResults (fst (executePipeline cfg stages st0 opts))"
      by (simp add: executePipeline_def Let_def getPipelineResult_def)
  next
    assume "failFast opts = Some False"
    with B inv show "map fst (invoked (fst (executePipeline cfg stages st0 opts))) =
        filter (\<lambda>n. n \<notin> set (skipStages opts)) [''clone'', ''clean'', ''upload'']" by simp
  next
    fix pre n so r post
    assume "invoked (fst (executePipeline cfg stages st0 opts)) = pre @ (n, so, r) # post"
    with C[of pre n so r post] inv res
    show "so = stageOptions opts ?bs ?mc n (lastProduced pre)"
      and "r = stageFn stages n so"
      and "stageResults (fst (executePipeline cfg stages st0 opts)) n =
             Some (case r of Inl msg \<Rightarrow> failedStage n msg | Inr x \<Rightarrow> x)" by simp_all
  qed
qed


lemma executePipeline_no_tokens:
  "folderTokens opts = [] \<Longrightarrow> invoked (fst (executePipeline cfg stages st0 opts)) = []"
  by (simp add: executePipeline_def Let_def)

text \<open>
  Claim C1. Take a run of \<open>executePipeline\<close> in which the \<open>execute\<close> of a stage \<open>n\<close>
  throws (with the message \<open>msg\<close>). If \<open>failFast\<close> is not set to \<open>false\<close>, the run
  rejects with \<open>Pipeline failed at stage n: msg\<close>, the error naming the failing stage. If
  \<open>failFast\<close> is \<open>false\<close>, the run resolves; the entry of \<open>n\<close> in the result's
  \<open>stages\<close> map is the failure record, with \<open>success = false\<close>; the stages of the run
  (clone, clean, upload, without those the caller has listed in \<open>skipStages\<close>, which is
  empty by default) are all executed, in this order, whatever the outcome of the stages
  before them; and each is executed on the options that carry the document set produced by
  the last stage before it that succeeded (the \<open>documents\<close> of the last earlier call
  that resolved with a document list, \<open>null\<close> when there is none). In the witness
  Enrichment fails and Indexing runs on the three documents of Collection.
\<close>

theorem executePipeline_failFast_policy:
  assumes thrown: "(n, so, Inl msg) \<in> set (invoked (fst (executePipeline cfg stages st0 opts)))"
  shows "(failFast opts \<noteq> Some False \<longrightarrow>
            snd (executePipeline cfg stages st0 opts) =
              Inl (''Pipeline failed at stage '' @ n @ '': '' @ msg)) \<and>
         (failFast opts = Some False \<longrightarrow>
            (\<exists>res. snd (executePipeline cfg stages st0 opts) = Inr res \<and>
                   pr_stages res n = Some (failedStage n msg) \<and>
                   map_option sr_success (pr_stages res n) = Some False) \<and>
            map fst (invoked (fst (executePipeline cfg stages st0 opts))) =
              filter (\<lambda>m. m \<notin> set (skipStages opts)) [''clone'', ''clean'', ''upload''] \<and>
            (\<forall>pre m so' r post.
               invoked (fst (executePipeline cfg stages st0 opts)) = pre @ (m, so', r) # post \<longrightarrow>
                 so' = stageOptions opts (batchSizeOf cfg opts) (maxConcurrentOf cfg opts) m
                        (lastProduced pre) \<and>
                 r = stageFn stages m so'))"
proof -
  let ?run = "executePipeline cfg stages st0 opts"
  from thrown have tokens: "folderTokens opts \<noteq> []"
    using executePipeline_no_tokens[of opts cfg stages st0] by auto
  note calls = executePipeline_stage_calls[OF tokens, of cfg stages st0]
  note abort = calls[THEN conjunct1, rule_format]
  note continue = calls[THEN conjunct2, rule_format]
  from thrown obtain pre post where split: "invoked (fst ?run) = pre @ (n, so, Inl msg) # post"
    by (auto dest: split_list)
  show ?thesis
  proof (intro conjI impI allI)
    assume "failFast opts \<noteq> Some False"
    from abort[OF this thrown]
    show "snd ?run = Inl (''Pipeline failed at stage '' @ n @ '': '' @ msg)" .
  next
    assume ff: "failFast opts = Some False"
    from continue[OF ff, THEN conjunct1] obtain res where res: "snd ?run = Inr res"
      and st: "pr_stages res = stageResults (fst ?run)" by blast
    from continue[OF ff, THEN conjunct2, THEN conjunct2, rule_format, OF split]
    have "stageResults (fst ?run) n = Some (failedStage n msg)" by simp
    with st have e: "pr_stages res n = Some (failedStage n msg)" by simp
    then have "map_option sr_success (pr_stages res n) = Some False"
      by (simp add: failedStage_def)
    with res e show "\<exists>res. snd ?run = Inr res \<and> pr_stages res n = Some (failedStage n msg) \<and>
        map_option sr_success (pr_stages res n) = Some False"
      by blast
  next
    assume ff: "failFast opts = Some False"
    from continue[OF ff, THEN conjunct2, THEN conjunct1]
    show "map fst (invoked (fst ?run)) =
        filter (\<lambda>m. m \<notin> set (skipStages opts)) [''clone'', ''clean'', ''upload'']" .
  next
    fix pre m so' r post
    assume ff: "failFast opts = Some False"
      and sp: "invoked (fst ?run) = pre @ (m, so', r) # post"
    note c = continue[OF ff, THEN conjunct2, THEN conjunct2, rule_format, OF sp]
    from c show "so' = stageOptions opts (batchSizeOf cfg opts) (maxConcurrentOf cfg opts) m
            (lastProduced pre)" by simp
    from c show "r = stageFn stages m so'" by simp
  qed
qed

lemma mockRun_calls:
  "invoked (fst (executePipeline mockConfig mockStages initialState (mockOptions [] ff))) =
     (if ff = Some False
      then [(''clone'', CloneOptions 10 5 [''folder1''] False,
               stage_clone mockStages (CloneOptions 10 5 [''folder1''] False)),
            (''clean'', CleanOptions 10 5 (Some [1, 2, 3]) False, Inl ''Clean stage failed''),
            (''upload'', UploadOptions 10 5 (Some [1, 2, 3]) False,
               stage_upload mockStages (UploadOptions 10 5 (Some [1, 2, 3]) False))]
      else [(''clone'', CloneOptions 10 5 [''folder1''] False,
               stage_clone mockStages (CloneOptions 10 5 [''folder1''] False)),
            (''clean'', CleanOptions 10 5 (Some [1, 2, 3]) False, Inl ''Clean stage failed'')])"
  by (simp add: executePipeline_def mockConfig_def mockStages_def initialState_def
      mockOptions_def batchSizeOf_def maxConcurrentOf_def destructured_def orDefault_def
      stageStarted_def stageSucceeded_def stageFailed_def stageOptions_def Let_def
      getPipelineResult_def failedStage_def)

theorem executePipeline_failFast_policy_witness:
  "(\<exists>res. snd (executePipeline mockConfig mockStages initialState (mockOptions [] (Some False)))
            = Inr res \<and>
          map_option sr_success (pr_stages res ''clean'') = Some False) \<and>
   map fst (invoked (fst (executePipeline mockConfig mockStages initialState
       (mockOptions [] (Some False))))) = [''clone'', ''clean'', ''upload''] \<and>
   (''upload'', UploadOptions 10 5 (Some [1, 2, 3]) False,
      stage_upload mockStages (UploadOptions 10 5 (Some [1, 2, 3]) False))
     \<in> set (invoked (fst (executePipeline mockConfig mockStages initialState
              (mockOptions [] (Some False))))) \<and>
   snd (executePipeline mockConfig mockStages initialState (mockOptions [] None)) =
     Inl ''Pipeline failed at stage clean: Clean stage failed''"
proof -
  let ?o = "mockOptions [] (Some False)"
  let ?q = "mockOptions [] None"
  let ?call = "(''clean'', CleanOptions 10 5 (Some [1, 2, 3]) False, Inl ''Clean stage failed'')"
  have f: "failFast ?o = Some False" and f': "failFast ?q \<noteq> Some False"
    and skip: "skipStages ?o = []"
    by (simp_all add: mockOptions_def)
  have thrown: "?call \<in> set (invoked (fst (executePipeline mockConfig mockStages initialState ?o)))"
    by (simp add: mockRun_calls)
  have thrown': "?call \<in> set (invoked (fst (executePipeline mockConfig mockStages initialState ?q)))"
    by (simp add: mockRun_calls)
  note p = executePipeline_failFast_policy[OF thrown, THEN conjunct2, THEN mp, OF f]
  from p have 1: "\<exists>res. snd (executePipeline mockConfig mockStages initialState ?o) = Inr res \<and>
      map_option sr_success (pr_stages res ''clean'') = Some False"
    by blast
  from p have "map fst (invoked (fst (executePipeline mockConfig mockStages
      initialState ?o))) = filter (\<lambda>m. m \<notin> set (skipStages ?o)) [''clone'', ''clean'', ''upload'']"
    by blast
  then have 2: "map fst (invoked (fst (executePipeline mockConfig mockStages
      initialState ?o))) = [''clone'', ''clean'', ''upload'']"
    by (simp add: skip)
  have 3: "(''upload'', UploadOptions 10 5 (Some [1, 2, 3]) False,
      stage_upload mockStages (UploadOptions 10 5 (Some [1, 2, 3]) False))
     \<in> set (invoked (fst (executePipeline mockConfig mockStages initialState ?o)))"
    by (simp add: mockRun_calls)
  from executePipeline_failFast_policy[OF thrown', THEN conjunct1, THEN mp, OF f']
  have 4: "snd (executePipeline mockConfig mockStages initialState ?q) =
     Inl ''Pipeline failed at stage clean: Clean stage failed''"
    by simp
  from 1 2 3 4 show ?thesis by blast
qed

text \<open>
  A stage that the caller lists in \<open>skipStages\<close> is not part of the run: with
  \<open>skipStages = ['upload']\<close>, \<open>failFast = false\<close> and Enrichment failing, the run
  resolves after clone and clean.
\<close>

lemma executePipeline_skipStages_example:
  "(case executePipeline mockConfig mockStages initialState
           (mockOptions [''upload''] (Some False)) of
      (st, Inr res) \<Rightarrow>
        map fst (invoked st) = [''clone'', ''clean''] \<and>
        map_option sr_success (pr_stages res ''clean'') = Some False \<and>
        pr_stages res ''upload'' = None
    | (st, Inl err) \<Rightarrow> False)"
  by (simp add: executePipeline_def mockConfig_def mockStages_def initialState_def
      mockOptions_def batchSizeOf_def maxConcurrentOf_def destructured_def orDefault_def
      stageStarted_def stageSucceeded_def stageFailed_def stageOptions_def Let_def
      getPipelineResult_def failedStage_def)

text \<open>
  Claim C10: whenever \<open>executePipeline\<close> resolves, the top-level \<open>success\<close> of the
  result is \<open>true\<close> and its \<open>stages\<close> map is the recorded stage results; a failed
  stage shows only there (the witness is a run with \<open>failFast = false\<close> whose
  Enrichment stage rejected).
\<close>

theorem executePipeline_success_flag:
  "snd (executePipeline cfg stages st0 opts) = Inr res \<Longrightarrow>
   pr_success res = True \<and>
   pr_stages res = stageResults (fst (executePipeline cfg stages st0 opts))"
  by (auto simp: executePipeline_def Let_def getPipelineResult_def
      split: if_splits prod.splits option.splits)

theorem executePipeline_success_flag_witness:
  "(\<exists>res. snd (executePipeline mockConfig mockStages initialState (mockOptions [] (Some False)))
            = Inr res \<and> pr_success res = True \<and>
          map_option sr_success (pr_stages res ''clean'') = Some False)"
proof -
  let ?run = "executePipeline mockConfig mockStages initialState (mockOptions [] (Some False))"
  obtain res where r: "snd ?run = Inr res"
    by (simp add: executePipeline_def mockConfig_def mockStages_def initialState_def
      mockOptions_def batchSizeOf_def maxConcurrentOf_def destructured_def orDefault_def
      stageStarted_def stageSucceeded_def stageFailed_def stageOptions_def Let_def
      getPipelineResult_def failedStage_def)
  from executePipeline_success_flag[OF r]
  have s: "pr_success res = True" and st: "pr_stages res = stageResults (fst ?run)" by simp_all
  have "map_option sr_success (stageResults (fst ?run) ''clean'') = Some False"
    by (simp add: executePipeline_def mockConfig_def mockStages_def initialState_def
      mockOptions_def batchSizeOf_def maxConcurrentOf_def destructured_def orDefault_def
      stageStarted_def stageSucceeded_def stageFailed_def stageOptions_def Let_def
      getPipelineResult_def failedStage_def)
  with r s st show ?thesis by simp
qed

section \<open>Proofs: cache layer\<close>

text \<open>
  Claim C8, as the code has it: for a document id with an existing cache entry and a write
  that goes through, \<open>updateAIResults\<close> sets the entry's \<open>aiResults\<close> to the given
  results and its \<open>updatedAt\<close> stamp to the current time, and leaves every other field of
  the entry (id, fingerprint, type, original document, processed content, metadata,
  \<open>createdAt\<close>, \<open>lastModified\<close>, embedding) and every other entry unchanged.
\<close>

theorem updateAIResults_frame:
  assumes "entries c did = Some e" and "writeError c did = None"
  shows "\<exists>c' e'. updateAIResults now c did ai = Inr c' \<and> entries c' did = Some e' \<and>
           aiResults e' = Some ai \<and> updatedAt e' = now \<and>
           documentId e' = documentId e \<and> hash e' = hash e \<and> ce_type e' = ce_type e \<and>
           originalDocument e' = originalDocument e \<and>
           processedContent e' = processedContent e \<and> ce_metadata e' = ce_metadata e \<and>
           createdAt e' = createdAt e \<and> lastModified e' = lastModified e \<and>
           ce_embedding e' = ce_embedding e \<and>
           (\<forall>k. k \<noteq> did \<longrightarrow> entries c' k = entries c k)"
  using assms by (simp add: updateAIResults_def)

theorem updateAIResults_frame_witness:
  "entries demoCache ''doc1'' \<noteq> None \<and> writeError demoCache ''doc1'' = None \<and>
   (\<exists>c' e'. updateAIResults 2000 demoCache ''doc1'' demoAiResults = Inr c' \<and>
       entries c' ''doc1'' = Some e' \<and> aiResults e' = Some demoAiResults \<and>
       updatedAt e' = 2000 \<and> createdAt e' = 1000 \<and>
       hash e' = ''0f343b0931126a20f133d67c2b018a3b'')"
proof -
  have e: "entries demoCache ''doc1'' = Some (cacheEntryFor ''0f343b0931126a20f133d67c2b018a3b''
      1000 (plainDocument ''doc1'' (js ''hello'')) None None)"
    and w: "writeError demoCache ''doc1'' = None"
    by (simp_all add: demoCache_def emptyCache_def)
  from updateAIResults_frame[OF e w, of 2000 demoAiResults]
  show ?thesis using e w by (auto simp: cacheEntryFor_def)
qed

text \<open>
  The claim as stated (all timestamps preserved) fails: the \<open>$set\<close> writes
  \<open>updatedAt\<close> as well.
\<close>

theorem updateAIResults_touches_updatedAt:
  "(case updateAIResults 2000 demoCache ''doc1'' demoAiResults of
      Inr c' \<Rightarrow> map_option updatedAt (entries demoCache ''doc1'') = Some 1000 \<and>
                map_option updatedAt (entries c' ''doc1'') = Some 2000
    | Inl err \<Rightarrow> False)"
  by (simp add: updateAIResults_def demoCache_def emptyCache_def cacheEntryFor_def)











text \<open>
  This is not a matter of the stand-in: a digest of bounded size, such as the 32
  hexadecimal digits of MD5, takes finitely many values, and among infinitely many
  serializations of documents two different ones then have the same digest; storing one
  document and checking with the object of the other is reported cached.
\<close>

lemma bounded_digest_finite:
  assumes "finite digits"
    and "\<forall>s. length (md5_hex rt s) = n \<and> set (md5_hex rt s) \<subseteq> digits"
  shows "finite (range (md5_hex rt))"
proof -
  have "range (md5_hex rt) \<subseteq> {xs. set xs \<subseteq> digits \<and> length xs = n}"
    using assms(2) by blast
  moreover have "finite {xs. set xs \<subseteq> digits \<and> length xs = n}"
    using assms(1) by (rule finite_lists_length_eq)
  ultimately show ?thesis by (rule finite_subset)
qed

lemma finite_digest_collision:
  assumes fin: "finite (range (md5_hex rt))"
    and inf: "infinite (range (\<lambda>d. JSON_stringify rt (objectOf rt d)))"
    and wr: "\<forall>i. writeError c i = None" and rd: "\<forall>i. readError c i = None"
  shows "\<exists>d x c'. cacheDocument rt now c d pc ai = Inr c' \<and>
           isDocumentCached rt c' (doc_id d) x \<and>
           JSON_stringify rt x \<noteq> JSON_stringify rt (objectOf rt d)"
proof -
  let ?f = "\<lambda>d. JSON_stringify rt (objectOf rt d)"
  let ?g = "map_option (md5_hex rt)"
  have "?g ` range ?f \<subseteq> insert None (Some ` range (md5_hex rt))"
    by (auto simp: map_option_case split: option.splits)
  with fin have "finite (?g ` range ?f)" by (auto intro: finite_subset)
  with inf have "\<not> inj_on ?g (range ?f)" by (auto dest: finite_imageD)
  then obtain d1 d2 where ne: "?f d1 \<noteq> ?f d2" and eq: "?g (?f d1) = ?g (?f d2)"
    by (auto simp: inj_on_def)
  from ne eq obtain s1 s2 where s1: "?f d1 = Some s1" and s2: "?f d2 = Some s2"
    and dig: "md5_hex rt s1 = md5_hex rt s2"
    by (cases "?f d1"; cases "?f d2") auto
  let ?c' = "c\<lparr>entries := (entries c)(doc_id d1 \<mapsto>
      cacheEntryFor (md5_hex rt s1) now d1 pc
        (Some (case ai of None \<Rightarrow> emptyAiResults | Some a \<Rightarrow> a)))\<rparr>"
  have put: "cacheDocument rt now c d1 pc ai = Inr ?c'"
    using s1 wr by (simp add: cacheDocument_def calculateHash_def)
  have "isDocumentCached rt ?c' (doc_id d1) (objectOf rt d2)"
    using s2 dig rd by (simp add: isDocumentCached_def calculateHash_def cacheEntryFor_def)
  moreover note put
  moreover from ne have "JSON_stringify rt (objectOf rt d2) \<noteq> JSON_stringify rt (objectOf rt d1)"
    by simp
  ultimately have "cacheDocument rt now c d1 pc ai = Inr ?c' \<and>
      isDocumentCached rt ?c' (doc_id d1) (objectOf rt d2) \<and>
      JSON_stringify rt (objectOf rt d2) \<noteq> JSON_stringify rt (objectOf rt d1)"
    by simp
  then show ?thesis by (intro exI)
qed

section \<open>Proofs: batching and the Enrichment stage\<close>

lemma concat_chunks: "n > 0 \<Longrightarrow> concat (chunks n xs) = xs"
proof (induction n xs rule: chunks.induct)
  case (1 n xs)
  show ?case
  proof (cases "xs = []")
    case True
    then show ?thesis by (subst chunks.simps) simp
  next
    case False
    with 1 have "concat (chunks n (drop n xs)) = drop n xs" by simp
    with False "1.prems" show ?thesis by (subst chunks.simps) simp
  qed
qed

lemma chunks_Nil: "chunks n [] = []"
  by (subst chunks.simps) simp

lemma chunkArray_concat: "chunkArray xs n = Some bs \<Longrightarrow> concat bs = xs"
  by (cases "n = 0") (auto simp: chunkArray_def concat_chunks chunks_Nil split: if_splits)

lemma chunkArray_pos: "n > 0 \<Longrightarrow> chunkArray xs n = Some (chunks n xs)"
  by (simp add: chunkArray_def)

lemma chunkArray_Nil: "chunkArray [] n = Some []"
  by (simp add: chunkArray_def chunks_Nil)

lemma mapAccum_append:
  "mapAccum f s (xs @ ys) =
     (case mapAccum f s xs of (s1, o1) \<Rightarrow>
        (case mapAccum f s1 ys of (s2, o2) \<Rightarrow> (s2, o1 @ o2)))"
  by (induction xs arbitrary: s) (auto split: prod.splits)

lemma length_mapAccum: "length (snd (mapAccum f s xs)) = length xs"
proof (induction xs arbitrary: s)
  case Nil
  then show ?case by simp
next
  case (Cons x xs)
  obtain s1 y where f: "f s x = (s1, y)" by (cases "f s x")
  obtain s2 ys where m: "mapAccum f s1 xs = (s2, ys)" by (cases "mapAccum f s1 xs")
  from Cons.IH[of s1] m have "length ys = length xs" by simp
  with f m show ?case by simp
qed

text \<open>
  A key that the AI results have with the value \<open>null\<close> replaces the document's field;
  a key they do not have leaves it.
\<close>

lemma mergeAiResults_null_overrides:
  "summary (mergeAiResults d (emptyAiResults\<lparr>ar_summary := Some None\<rparr>)) = None \<and>
   summary (mergeAiResults d emptyAiResults) = summary d"
  by (simp add: mergeAiResults_def emptyAiResults_def)













lemma doc_content_cleanDocument [simp]: "doc_content (cleanDocument d) = doc_content d"
  by (simp add: cleanDocument_def)

lemma doc_id_cleanDocument [simp]: "doc_id (cleanDocument d) = doc_id d"
  by (simp add: cleanDocument_def)





lemma chunks_single: "n > 0 \<Longrightarrow> chunks n [x] = [[x]]"
  by (subst chunks.simps) (simp add: chunks_Nil)


section \<open>Proofs: splitContent\<close>

lemma trim_prefix: "\<exists>u. dropWhile isWhiteSpace s = trim s @ u"
proof -
  let ?t = "dropWhile isWhiteSpace s"
  have "rev (rev ?t) =
        rev (takeWhile isWhiteSpace (rev ?t) @ dropWhile isWhiteSpace (rev ?t))"
    by (simp only: takeWhile_dropWhile_id)
  then have "?t = rev (dropWhile isWhiteSpace (rev ?t)) @ rev (takeWhile isWhiteSpace (rev ?t))"
    by (simp only: rev_rev_ident rev_append)
  then have "?t = trim s @ rev (takeWhile isWhiteSpace (rev ?t))"
    by (simp only: trim_def)
  then show ?thesis by blast
qed

lemma hd_trim: "trim s \<noteq> [] \<Longrightarrow> \<not> isWhiteSpace (hd (trim s))"
proof -
  assume ne: "trim s \<noteq> []"
  obtain u where u: "dropWhile isWhiteSpace s = trim s @ u" using trim_prefix by blast
  with ne have "dropWhile isWhiteSpace s \<noteq> []" by auto
  then have "\<not> isWhiteSpace (hd (dropWhile isWhiteSpace s))" by (rule hd_dropWhile)
  with u ne show ?thesis by simp
qed

lemma trim_solid: "solid s \<Longrightarrow> trim s = s"
proof -
  assume s: "solid s"
  then have 1: "dropWhile isWhiteSpace s = s"
    by (cases s) (auto simp: solid_def)
  from s have "rev s \<noteq> []" "\<not> isWhiteSpace (hd (rev s))"
    by (auto simp: solid_def hd_rev)
  then have "dropWhile isWhiteSpace (rev s) = rev s"
    by (cases "rev s") auto
  with 1 show ?thesis by (simp add: trim_def)
qed

lemma fullStop_not_space: "\<not> isWhiteSpace fullStop"
  by (simp add: fullStop_def isWhiteSpace_def)

lemma solid_sentence: "trim s \<noteq> [] \<Longrightarrow> solid (trim s @ [fullStop])"
  using hd_trim[of s] by (simp add: solid_def fullStop_not_space)

lemma solid_sentences: "\<forall>s \<in> set (splitIntoSentences text). solid s"
  by (auto simp: splitIntoSentences_def solid_sentence)

lemma solid_concat:
  "g \<noteq> [] \<Longrightarrow> \<forall>s \<in> set g. solid s \<Longrightarrow> solid (concat g)"
proof (induction g rule: rev_induct)
  case Nil
  then show ?case by simp
next
  case (snoc x g)
  show ?case
  proof (cases "g = []")
    case True
    with snoc.prems show ?thesis by simp
  next
    case False
    with snoc have g: "solid (concat g)" and x: "solid x" by auto
    then show ?thesis by (auto simp: solid_def)
  qed
qed

lemma concat_solid_Nil: "\<forall>s \<in> set g. solid s \<Longrightarrow> concat g = [] \<Longrightarrow> g = []"
  by (cases g) (auto simp: solid_def)

lemma grouped_step:
  assumes inv: "grouped maxTokens seen acc" and d: "\<forall>s \<in> set seen. solid s" and s: "solid s"
  shows "grouped maxTokens (seen @ [s]) (splitStep maxTokens acc s)"
proof -
  obtain cs cur where acc: "acc = (cs, cur)" by (cases acc)
  from inv acc obtain gs g where
    dn: "seen = concat gs @ g" and cs: "cs = map concat gs" and cur: "cur = concat g"
    and gsok: "\<forall>x \<in> set gs. x \<noteq> [] \<and> (estimateTokens (concat x) \<le> maxTokens \<or> length x = 1)"
    and gok: "estimateTokens (concat g) \<le> maxTokens \<or> length g \<le> 1"
    by (auto simp: grouped_def)
  from d dn have gsolid: "\<forall>x \<in> set g. solid x" by auto
  show ?thesis
  proof (cases "estimateTokens (cur @ s) > maxTokens \<and> cur \<noteq> []")
    case True
    then have gne: "g \<noteq> []" using cur by auto
    have tr: "trim cur = concat g"
      using trim_solid[OF solid_concat[OF gne gsolid]] cur by simp
    have step: "splitStep maxTokens acc s = (cs @ [trim cur], s)"
      using True acc by (simp add: splitStep_def Let_def)
    have g1: "estimateTokens (concat g) \<le> maxTokens \<or> length g = 1"
      using gok gne by (cases g) auto
    show ?thesis
      unfolding grouped_def step
      apply (rule exI[of _ "gs @ [g]"])
      apply (rule exI[of _ "[s]"])
      using dn cs tr gsok g1 gne by auto
  next
    case False
    then have step: "splitStep maxTokens acc s = (cs, cur @ s)"
      using acc by (auto simp: splitStep_def Let_def)
    have ok: "estimateTokens (concat (g @ [s])) \<le> maxTokens \<or> length (g @ [s]) \<le> 1"
    proof (cases "cur = []")
      case True
      with cur gsolid have "g = []" using concat_solid_Nil by auto
      then show ?thesis by simp
    next
      case ne: False
      with False cur show ?thesis by auto
    qed
    show ?thesis
      unfolding grouped_def step
      apply (rule exI[of _ gs])
      apply (rule exI[of _ "g @ [s]"])
      using dn cs cur gsok ok by auto
  qed
qed

lemma grouped_foldl:
  "grouped maxTokens seen acc \<Longrightarrow> \<forall>s \<in> set seen. solid s \<Longrightarrow> \<forall>s \<in> set ss. solid s \<Longrightarrow>
   grouped maxTokens (seen @ ss) (foldl (splitStep maxTokens) acc ss)"
proof (induction ss arbitrary: seen acc)
  case Nil
  then show ?case by simp
next
  case (Cons s ss)
  from Cons.prems have s: "solid s" and rest: "\<forall>x \<in> set ss. solid x" by auto
  have 1: "grouped maxTokens (seen @ [s]) (splitStep maxTokens acc s)"
    by (rule grouped_step[OF Cons.prems(1,2) s])
  have 2: "\<forall>x \<in> set (seen @ [s]). solid x" using Cons.prems(2) s by auto
  from Cons.IH[OF 1 2 rest] show ?case by simp
qed

lemma splitContent_groups:
  assumes over: "estimateTokens content > maxTokens"
  shows "\<exists>gs. concat gs = splitIntoSentences content \<and> [] \<notin> set gs \<and>
           splitContent content maxTokens = map concat gs \<and>
           (\<forall>g \<in> set gs. estimateTokens (concat g) \<le> maxTokens \<or> length g = 1)"
proof -
  let ?S = "splitIntoSentences content"
  have start: "grouped maxTokens [] ([], [])"
    unfolding grouped_def by (intro exI[of _ "[]"]) simp
  from grouped_foldl[OF start _ solid_sentences, of content]
  have inv: "grouped maxTokens ?S (foldl (splitStep maxTokens) ([], []) ?S)" by simp
  obtain cs cur where f: "foldl (splitStep maxTokens) ([], []) ?S = (cs, cur)"
    by (cases "foldl (splitStep maxTokens) ([], []) ?S")
  from inv f obtain gs g where
    dn: "?S = concat gs @ g" and cs: "cs = map concat gs" and cur: "cur = concat g"
    and gsok: "\<forall>x \<in> set gs. x \<noteq> [] \<and> (estimateTokens (concat x) \<le> maxTokens \<or> length x = 1)"
    and gok: "estimateTokens (concat g) \<le> maxTokens \<or> length g \<le> 1"
    by (auto simp: grouped_def)
  from dn solid_sentences[of content] have gsolid: "\<forall>x \<in> set g. solid x" by auto
  show ?thesis
  proof (cases "cur = []")
    case True
    with cur gsolid have "g = []" using concat_solid_Nil by auto
    with over f True dn cs gsok show ?thesis
      by (intro exI[of _ gs]) (auto simp: splitContent_def)
  next
    case False
    then have gne: "g \<noteq> []" using cur by auto
    have tr: "trim cur = concat g"
      using trim_solid[OF solid_concat[OF gne gsolid]] cur by simp
    have g1: "estimateTokens (concat g) \<le> maxTokens \<or> length g = 1"
      using gok gne by (cases g) auto
    from over f False have "splitContent content maxTokens = cs @ [trim cur]"
      by (simp add: splitContent_def)
    with dn cs tr gsok g1 gne show ?thesis
      by (intro exI[of _ "gs @ [g]"]) auto
  qed
qed

lemma concat_splitOn: "concat (splitOn p xs) = filter (\<lambda>c. \<not> p c) xs"
  by (induction xs) (auto split: list.splits)

lemma doc_content_chunkDocument [simp]: "doc_content (chunkDocument d n i c) = Some c"
  by (simp add: chunkDocument_def)

lemma doc_id_chunkDocument [simp]:
  "doc_id (chunkDocument d n i c) = doc_id d @ ''_part'' @ showNat (i + 1)"
  by (simp add: chunkDocument_def)

lemma map_zip_upt_snd: "map (\<lambda>p. f (snd p)) (zip [0..<length cs] cs) = map f cs"
proof -
  have "map (\<lambda>p. f (snd p)) (zip [0..<length cs] cs) = map f (map snd (zip [0..<length cs] cs))"
    by (simp only: map_map comp_def)
  also have "map snd (zip [0..<length cs] cs) = cs"
    by (rule map_snd_zip) simp
  finally show ?thesis .
qed

lemma map_zip_upt_fst: "map (\<lambda>p. f (fst p)) (zip [0..<length cs] cs) = map f [0..<length cs]"
proof -
  have "map (\<lambda>p. f (fst p)) (zip [0..<length cs] cs) = map f (map fst (zip [0..<length cs] cs))"
    by (simp only: map_map comp_def)
  also have "map fst (zip [0..<length cs] cs) = [0..<length cs]"
    by (rule map_fst_zip) simp
  finally show ?thesis .
qed

lemma splitDocument_chunks:
  assumes "doc_content d = Some content" and "length (splitContent content maxTokens) > 1"
  shows "map doc_content (splitDocument maxTokens d) = map Some (splitContent content maxTokens)"
    and "map doc_id (splitDocument maxTokens d) =
           map (\<lambda>i. doc_id d @ ''_part'' @ showNat (i + 1))
             [0..<length (splitContent content maxTokens)]"
proof -
  let ?cs = "splitContent content maxTokens"
  have sd: "splitDocument maxTokens d =
      map (\<lambda>p. chunkDocument d (length ?cs) (fst p) (snd p)) (zip [0..<length ?cs] ?cs)"
    using assms by (simp add: splitDocument_def Let_def case_prod_unfold)
  show "map doc_content (splitDocument maxTokens d) = map Some ?cs"
    unfolding sd using map_zip_upt_snd[of Some ?cs] by (simp add: comp_def)
  show "map doc_id (splitDocument maxTokens d) =
           map (\<lambda>i. doc_id d @ ''_part'' @ showNat (i + 1)) [0..<length ?cs]"
    unfolding sd
    using map_zip_upt_fst[of "\<lambda>i. doc_id d @ ''_part'' @ showNat (i + 1)" ?cs]
    by (simp add: comp_def)
qed

lemma splitDocument_unsplit:
  assumes "doc_content d = Some content" and "\<not> length (splitContent content maxTokens) > 1"
  shows "splitDocument maxTokens d = [d]"
  using assms by (simp add: splitDocument_def Let_def)

text \<open>
  Claim C4, as the code has it. Let the estimated token count of a document's content
  (\<open>ceil(1.5 * length)\<close>) exceed the threshold. The sentences of the content are its
  pieces between the delimiters (ideographic full stop, fullwidth ! and ?, line feed;
  together the pieces are the content without its delimiters), blank pieces dropped, each
  trimmed and ended with an ideographic full stop. \<open>splitContent\<close> returns, in order,
  chunks that are the concatenations of consecutive runs of whole sentences, so the
  chunks put together are the sentences put together; every chunk is within the threshold
  or is a single sentence. The stage replaces the document by one chunk document per
  chunk (ids \<open><id>_part1\<close>, \<open><id>_part2\<close>, ...) only when there are at least two
  chunks, and otherwise keeps the document as it is.
\<close>

theorem splitContent_sentence_groups:
  assumes over: "estimateTokens content > maxTokens" and c: "doc_content d = Some content"
  shows "concat (splitOn isSentenceEnd content) = filter (\<lambda>u. \<not> isSentenceEnd u) content \<and>
         (\<exists>gs. concat gs = splitIntoSentences content \<and> [] \<notin> set gs \<and>
            splitContent content maxTokens = map concat gs \<and>
            (\<forall>g \<in> set gs. estimateTokens (concat g) \<le> maxTokens \<or> length g = 1) \<and>
            (if length gs > 1
             then map doc_content (splitDocument maxTokens d) = map (\<lambda>g. Some (concat g)) gs \<and>
                  map doc_id (splitDocument maxTokens d) =
                    map (\<lambda>i. doc_id d @ ''_part'' @ showNat (i + 1)) [0..<length gs]
             else splitDocument maxTokens d = [d]))"
proof -
  from splitContent_groups[OF over] obtain gs where
    1: "concat gs = splitIntoSentences content" and 2: "[] \<notin> set gs"
    and 3: "splitContent content maxTokens = map concat gs"
    and 4: "\<forall>g \<in> set gs. estimateTokens (concat g) \<le> maxTokens \<or> length g = 1"
    by blast
  have 5: "if length gs > 1
     then map doc_content (splitDocument maxTokens d) = map (\<lambda>g. Some (concat g)) gs \<and>
          map doc_id (splitDocument maxTokens d) =
            map (\<lambda>i. doc_id d @ ''_part'' @ showNat (i + 1)) [0..<length gs]
     else splitDocument maxTokens d = [d]"
  proof (cases "length gs > 1")
    case True
    then have l: "length (splitContent content maxTokens) > 1" using 3 by simp
    from splitDocument_chunks[OF c l] 3 True show ?thesis by (simp add: comp_def)
  next
    case False
    then have l: "\<not> length (splitContent content maxTokens) > 1" using 3 by simp
    from splitDocument_unsplit[OF c l] False show ?thesis by simp
  qed
  from 1 2 3 4 5 concat_splitOn[of isSentenceEnd content] show ?thesis by blast
qed

lemma splitContent_two_sentences:
  "splitContent [97, 98, 65281, 99, 100] 5 = [[97, 98, 12290], [99, 100, 12290]]"
  by (simp add: splitContent_def estimateTokens_def splitIntoSentences_def isSentenceEnd_def
      trim_def isWhiteSpace_def fullStop_def splitStep_def Let_def)

theorem splitContent_sentence_groups_witness:
  "estimateTokens [97, 98, 65281, 99, 100] > 5 \<and>
   doc_content (plainDocument ''doc1'' [97, 98, 65281, 99, 100]) = Some [97, 98, 65281, 99, 100] \<and>
   splitContent [97, 98, 65281, 99, 100] 5 = [[97, 98, 12290], [99, 100, 12290]] \<and>
   (\<exists>gs. concat gs = splitIntoSentences [97, 98, 65281, 99, 100] \<and>
         splitContent [97, 98, 65281, 99, 100] 5 = map concat gs \<and>
         map doc_content (splitDocument 5 (plainDocument ''doc1'' [97, 98, 65281, 99, 100])) =
           map (\<lambda>g. Some (concat g)) gs)"
proof -
  let ?c = "[97, 98, 65281, 99, 100] :: jstring"
  let ?d = "plainDocument ''doc1'' ?c"
  have over: "estimateTokens ?c > 5" by (simp add: estimateTokens_def)
  have c: "doc_content ?d = Some ?c" by (simp add: plainDocument_def)
  from splitContent_sentence_groups[OF over c] obtain gs where
    1: "concat gs = splitIntoSentences ?c" and 3: "splitContent ?c 5 = map concat gs"
    and 5: "if length gs > 1
     then map doc_content (splitDocument 5 ?d) = map (\<lambda>g. Some (concat g)) gs \<and>
          map doc_id (splitDocument 5 ?d) =
            map (\<lambda>i. doc_id ?d @ ''_part'' @ showNat (i + 1)) [0..<length gs]
     else splitDocument 5 ?d = [?d]"
    by blast
  from 3 have "length gs = 2" using splitContent_two_sentences
    by (metis length_map length_Cons list.size(3) One_nat_def Suc_1)
  with 5 have "map doc_content (splitDocument 5 ?d) = map (\<lambda>g. Some (concat g)) gs" by simp
  with over c 1 3 splitContent_two_sentences show ?thesis by blast
qed

lemma splitOn_no_delimiter: "\<forall>u \<in> set xs. \<not> p u \<Longrightarrow> splitOn p xs = [xs]"
  by (induction xs) auto

lemma splitContent_single_sentence:
  assumes ne: "content \<noteq> []"
    and plain: "\<forall>u \<in> set content. \<not> isSentenceEnd u \<and> \<not> isWhiteSpace u"
    and over: "estimateTokens content > maxTokens"
  shows "splitContent content maxTokens = [content @ [fullStop]]"
proof -
  from ne plain have "solid content" by (auto simp: solid_def)
  then have t: "trim content = content" by (rule trim_solid)
  from plain have sp: "splitOn isSentenceEnd content = [content]"
    by (intro splitOn_no_delimiter) simp
  have s: "splitIntoSentences content = [content @ [fullStop]]"
    using sp t ne by (simp add: splitIntoSentences_def)
  have "solid (content @ [fullStop])"
    using solid_sentence[of content] t ne by simp
  then have "trim (content @ [fullStop]) = content @ [fullStop]" by (rule trim_solid)
  with over s show ?thesis by (simp add: splitContent_def splitStep_def Let_def)
qed

text \<open>
  The claim as stated fails for a content of 700 letters without a delimiter and the
  threshold 1000: the estimate is 1050, \<open>splitContent\<close> returns one chunk (longer than
  the content by the added full stop), and the document is kept unsplit.
\<close>

theorem splitContent_long_sentence_unsplit:
  "estimateTokens (replicate 700 97) > 1000 \<and>
   splitContent (replicate 700 97) 1000 = [replicate 700 97 @ [fullStop]] \<and>
   splitDocument 1000 (plainDocument ''doc1'' (replicate 700 97)) =
     [plainDocument ''doc1'' (replicate 700 97)]"
proof -
  let ?c = "replicate 700 97 :: jstring"
  have over: "estimateTokens ?c > 1000" by (simp add: estimateTokens_def)
  have ne: "?c \<noteq> []" by simp
  have plain: "\<forall>u \<in> set ?c. \<not> isSentenceEnd u \<and> \<not> isWhiteSpace u"
    by (simp add: isSentenceEnd_def isWhiteSpace_def)
  have sc: "splitContent ?c 1000 = [?c @ [fullStop]]"
    by (rule splitContent_single_sentence[OF ne plain over])
  have "splitDocument 1000 (plainDocument ''doc1'' ?c) = [plainDocument ''doc1'' ?c]"
    by (rule splitDocument_unsplit[of _ ?c]) (simp_all add: plainDocument_def sc)
  with over sc show ?thesis by blast
qed

section \<open>Proofs: Indexing stage\<close>

lemma generateEmbedding_attempt: "generateEmbedding svc t n = embeddingAttempt svc t"
  by (induction n) (auto split: sum.splits)

lemma embedText_Some: "embedText svc (Some t) = embeddingAttempt svc t"
  by (simp add: embedText_def generateEmbedding_attempt)

lemma batchGenerateEmbeddings_result:
  "batchGenerateEmbeddings svc texts mc = Resolves rs \<Longrightarrow>
   None \<notin> set texts \<and> rs = map (embedText svc) texts"
  by (auto simp: batchGenerateEmbeddings_def split: option.splits if_splits
      dest!: chunkArray_concat)

lemma batchGenerateEmbeddings_total:
  "mc > 0 \<Longrightarrow> None \<notin> set texts \<Longrightarrow>
   batchGenerateEmbeddings svc texts mc = Resolves (map (embedText svc) texts)"
  by (simp add: batchGenerateEmbeddings_def chunkArray_pos concat_chunks)

lemma map_zip_map2: "map (\<lambda>(d, r). f d r) (zip xs (map g xs)) = map (\<lambda>d. f d (g d)) xs"
  by (induction xs) auto

lemma length_filter_map: "length (filter P (map f xs)) = length (filter (\<lambda>x. P (f x)) xs)"
  by (induction xs) auto

lemma generateEmbeddings_result:
  assumes "generateEmbeddings svc c stats docs force mc = Resolves (s1, withEmb)"
  shows "withEmb = servedFromCache c force docs @
            map (\<lambda>d. withEmbedding d (embeddingOf svc d))
              (filter (\<lambda>d. cachedEmbedding c force d = None) docs) \<and>
         up_cachedEmbeddings s1 = up_cachedEmbeddings stats +
            length (filter (\<lambda>d. cachedEmbedding c force d \<noteq> None) docs) \<and>
         up_embeddedDocuments s1 = up_embeddedDocuments stats +
            length (filter (\<lambda>d. isEmbedded (embeddingOf svc d))
              (filter (\<lambda>d. cachedEmbedding c force d = None) docs)) \<and>
         up_failedDocuments s1 = up_failedDocuments stats +
            length (filter (\<lambda>d. \<not> isEmbedded (embeddingOf svc d))
              (filter (\<lambda>d. cachedEmbedding c force d = None) docs)) \<and>
         up_totalDocuments s1 = up_totalDocuments stats \<and>
         up_indexedDocuments s1 = up_indexedDocuments stats"
proof (cases "filter (\<lambda>d. cachedEmbedding c force d = None) docs = []")
  case True
  with assms show ?thesis
    by (auto simp: generateEmbeddings_def Let_def servedFromCache_def)
next
  case False
  let ?toEmbed = "filter (\<lambda>d. cachedEmbedding c force d = None) docs"
  from False assms obtain rs where
    b: "batchGenerateEmbeddings svc (map doc_content ?toEmbed) mc = Resolves rs"
    by (auto simp: generateEmbeddings_def Let_def split: completion.splits)
  from batchGenerateEmbeddings_result[OF b]
  have rs: "rs = map (embeddingOf svc) ?toEmbed"
    by (simp add: embeddingOf_def comp_def)
  from assms False b
  have s1: "s1 = stats\<lparr>up_cachedEmbeddings := up_cachedEmbeddings stats +
                 length (filter (\<lambda>d. cachedEmbedding c force d \<noteq> None) docs),
               up_embeddedDocuments := up_embeddedDocuments stats +
                 length (filter isEmbedded rs),
               up_failedDocuments := up_failedDocuments stats +
                 length (filter (\<lambda>r. \<not> isEmbedded r) rs)\<rparr>"
    and w: "withEmb = servedFromCache c force docs @
              map (\<lambda>(d, r). withEmbedding d r) (zip ?toEmbed rs)"
    by (auto simp: generateEmbeddings_def Let_def servedFromCache_def)
  show ?thesis
    unfolding w s1 rs by (simp add: map_zip_map2 length_filter_map)
qed

lemma foldl_indexBatch:
  "up_failedDocuments (foldl (indexBatch es) stats batches) =
     up_failedDocuments stats + length (concat (rejectedBatches es batches)) \<and>
   up_totalDocuments (foldl (indexBatch es) stats batches) = up_totalDocuments stats \<and>
   up_cachedEmbeddings (foldl (indexBatch es) stats batches) = up_cachedEmbeddings stats \<and>
   up_embeddedDocuments (foldl (indexBatch es) stats batches) = up_embeddedDocuments stats \<and>
   up_indexedDocuments (foldl (indexBatch es) stats batches) =
     up_indexedDocuments stats + sum_list (map (acceptedItems es) batches)"
proof (induction batches arbitrary: stats)
  case Nil
  then show ?case by (simp add: rejectedBatches_def)
next
  case (Cons b batches)
  have step: "up_failedDocuments (indexBatch es stats b) =
        up_failedDocuments stats + (case es b of Inl _ \<Rightarrow> length b | Inr _ \<Rightarrow> 0)"
    "up_totalDocuments (indexBatch es stats b) = up_totalDocuments stats"
    "up_cachedEmbeddings (indexBatch es stats b) = up_cachedEmbeddings stats"
    "up_embeddedDocuments (indexBatch es stats b) = up_embeddedDocuments stats"
    "up_indexedDocuments (indexBatch es stats b) = up_indexedDocuments stats + acceptedItems es b"
    by (cases "es b"; simp add: indexBatch_def bulkIndexDocuments_def acceptedItems_def)+
  show ?case
    using Cons.IH[of "indexBatch es stats b"] step
    by (cases "es b") (simp_all add: rejectedBatches_def)
qed

lemma buildElasticsearchIndex_result:
  assumes "buildElasticsearchIndex es stats docs bs = Some (s2, sent)"
  shows "concat sent = docs"
    and "up_failedDocuments s2 = up_failedDocuments stats + length (concat (rejectedBatches es sent))"
    and "up_totalDocuments s2 = up_totalDocuments stats"
    and "up_cachedEmbeddings s2 = up_cachedEmbeddings stats"
    and "up_embeddedDocuments s2 = up_embeddedDocuments stats"
    and "up_indexedDocuments s2 =
           up_indexedDocuments stats + sum_list (map (acceptedItems es) sent)"
proof -
  show "concat sent = docs"
    using assms
    by (auto simp: buildElasticsearchIndex_def split: if_splits option.splits
        dest!: chunkArray_concat)
  have "s2 = foldl (indexBatch es) stats sent"
    using assms
    by (auto simp: buildElasticsearchIndex_def split: if_splits option.splits)
  then show "up_failedDocuments s2 = up_failedDocuments stats + length (concat (rejectedBatches es sent))"
    and "up_totalDocuments s2 = up_totalDocuments stats"
    and "up_cachedEmbeddings s2 = up_cachedEmbeddings stats"
    and "up_embeddedDocuments s2 = up_embeddedDocuments stats"
    and "up_indexedDocuments s2 =
           up_indexedDocuments stats + sum_list (map (acceptedItems es) sent)"
    using foldl_indexBatch[of es stats sent] by simp_all
qed

lemma uploadExecute_resolves:
  assumes "uploadExecute svc es rt now c stats0 (Some docs) force bs mc = Resolves (r, c', sent)"
    and "docs \<noteq> []"
  shows "\<exists>s1 s2 withEmb.
           generateEmbeddings svc c (resetUploadStats\<lparr>up_totalDocuments := length docs\<rparr>)
             docs force mc = Resolves (s1, withEmb) \<and>
           buildElasticsearchIndex es s1 withEmb bs = Some (s2, sent) \<and>
           r = uploadGetResults s2"
proof -
  from assms(2) obtain d ds where docs: "docs = d # ds" by (cases docs) auto
  from assms(1) show ?thesis
    unfolding docs uploadExecute_def
    by (auto split: completion.splits option.splits prod.splits)
qed


lemma generateEmbeddings_total:
  assumes "mc > 0" and "\<forall>d \<in> set docs. doc_content d \<noteq> None"
  shows "\<exists>s1 w. generateEmbeddings svc c stats docs force mc = Resolves (s1, w)"
proof -
  let ?toEmbed = "filter (\<lambda>d. cachedEmbedding c force d = None) docs"
  have "None \<notin> set (map doc_content ?toEmbed)" using assms(2) by auto
  from batchGenerateEmbeddings_total[OF assms(1) this, of svc]
  show ?thesis by (simp add: generateEmbeddings_def Let_def)
qed

lemma buildElasticsearchIndex_total:
  "bs > 0 \<Longrightarrow> \<exists>s2 sent. buildElasticsearchIndex es stats docs bs = Some (s2, sent)"
  by (simp add: buildElasticsearchIndex_def chunkArray_pos)

lemma updateCache_total: "bs > 0 \<Longrightarrow> \<exists>c'. updateCache rt now c docs bs = Some c'"
  by (simp add: updateCache_def Let_def chunkArray_pos)

lemma uploadExecute_total:
  assumes "docs \<noteq> []" and "bs > 0" and "mc > 0" and "\<forall>d \<in> set docs. doc_content d \<noteq> None"
  shows "\<exists>r c' sent. uploadExecute svc es rt now c stats0 (Some docs) force bs mc =
           Resolves (r, c', sent)"
proof -
  from assms(1) obtain d ds where docs: "docs = d # ds" by (cases docs) auto
  from generateEmbeddings_total[OF assms(3,4)]
  obtain s1 w where g: "generateEmbeddings svc c
      (resetUploadStats\<lparr>up_totalDocuments := length docs\<rparr>) docs force mc = Resolves (s1, w)"
    by blast
  from buildElasticsearchIndex_total[OF assms(2)]
  obtain s2 sent where b: "buildElasticsearchIndex es s1 w bs = Some (s2, sent)" by blast
  from updateCache_total[OF assms(2)]
  obtain c' where u: "updateCache rt now c w bs = Some c'" by blast
  from g b u show ?thesis unfolding docs uploadExecute_def by simp
qed

text \<open>
  What the stage does with a failed embedding request in a run that resolves (which a run
  on documents that all carry a content string does, by \<open>uploadExecute_total\<close>, for
  positive batch sizes). A document that is not served from the cache and whose embedding
  request fails goes into the bulk requests with the zero vector as its embedding,
  \<open>cached = false\<close> and the error in \<open>embeddingError\<close>; the zero vector has the width
  of the index's \<open>embedding\<close> field; \<open>failedDocuments\<close> counts every such document
  (and, on top, the documents of index batches that were rejected); \<open>indexedDocuments\<close>
  is the number of documents the index accepted; and \<open>embeddingGenerationRate\<close> is the
  number of documents whose embedding request succeeded divided by the number of documents.
\<close>

lemma uploadExecute_failed_embedding:
  assumes run: "uploadExecute svc es rt now c stats0 (Some docs) force bs mc =
                  Resolves (r, c', sent)"
    and d: "d \<in> set docs" and nc: "cachedEmbedding c force d = None"
    and f: "embeddingOf svc d = Inl err"
  shows "d\<lparr>embedding := Some zeroVector, cached := Some False, embeddingError := Some err\<rparr>
           \<in> set (concat sent) \<and>
         length zeroVector = embeddingDims \<and>
         up_failedDocuments (ur_stats r) =
           length (filter (\<lambda>x. cachedEmbedding c force x = None \<and>
                               \<not> isEmbedded (embeddingOf svc x)) docs) +
           length (concat (rejectedBatches es sent)) \<and>
         up_indexedDocuments (ur_stats r) = sum_list (map (acceptedItems es) sent) \<and>
         ur_embeddingGenerationRate r =
           of_nat (length (filter (\<lambda>x. cachedEmbedding c force x = None \<and>
                                       isEmbedded (embeddingOf svc x)) docs)) /
           of_nat (length docs)"
proof -
  from d have ne: "docs \<noteq> []" by auto
  from uploadExecute_resolves[OF run ne] obtain s1 s2 withEmb where
    g: "generateEmbeddings svc c (resetUploadStats\<lparr>up_totalDocuments := length docs\<rparr>)
          docs force mc = Resolves (s1, withEmb)"
    and b: "buildElasticsearchIndex es s1 withEmb bs = Some (s2, sent)"
    and r: "r = uploadGetResults s2" by blast
  note G = generateEmbeddings_result[OF g]
  note B = buildElasticsearchIndex_result[OF b]
  have "withEmbedding d (embeddingOf svc d) \<in> set withEmb"
    using G d nc by auto
  then have mem: "d\<lparr>embedding := Some zeroVector, cached := Some False,
       embeddingError := Some err\<rparr> \<in> set (concat sent)"
    using B(1) f by (simp add: withEmbedding_def)
  have dims: "length zeroVector = embeddingDims"
    by (simp add: zeroVector_def embeddingDims_def)
  have failed: "up_failedDocuments s2 =
      length (filter (\<lambda>x. cachedEmbedding c force x = None \<and>
                          \<not> isEmbedded (embeddingOf svc x)) docs) +
      length (concat (rejectedBatches es sent))"
    using G B(2) by (simp add: resetUploadStats_def conj_commute)
  have emb: "up_embeddedDocuments s2 =
      length (filter (\<lambda>x. cachedEmbedding c force x = None \<and>
                          isEmbedded (embeddingOf svc x)) docs)"
    using G B(5) by (simp add: resetUploadStats_def conj_commute)
  have idx: "up_indexedDocuments s2 = sum_list (map (acceptedItems es) sent)"
    using G B(6) by (simp add: resetUploadStats_def)
  have tot: "up_totalDocuments s2 = length docs"
    using G B(3) by simp
  from ne have "length docs > 0" by simp
  with mem dims failed emb idx tot r show ?thesis
    by (simp add: uploadGetResults_def rate_def)
qed

lemma cachedEmbedding_emptyCache: "cachedEmbedding emptyCache force d = None"
  by (simp add: cachedEmbedding_def getCachedDocument_def emptyCache_def)

lemma embeddingOf_demo:
  "embeddingOf demoAi (plainDocument i t) =
     (if t = js ''bad'' then Inl ''rate limit'' else Inr [1, 2])"
proof -
  have l: "length (js ''bad'') = 3" by (simp add: js_def)
  have tk: "take 8000 t = js ''bad'' \<longleftrightarrow> t = js ''bad''"
  proof
    assume a: "take 8000 t = js ''bad''"
    then have "length (take 8000 t) = 3" using l by simp
    then have "length t = 3" by (simp add: min_def split: if_splits)
    then have "take 8000 t = t" by simp
    with a show "t = js ''bad''" by simp
  next
    assume "t = js ''bad''"
    then show "take 8000 t = js ''bad''" using l by simp
  qed
  show ?thesis
    by (simp add: embeddingOf_def embedText_Some embeddingAttempt_def demoAi_def
        plainDocument_def tk)
qed

text \<open>
  The run of the specification's scenario: of five documents with a content string the
  embedding request fails for two, and the index accepts every document.
\<close>

lemma uploadExecute_two_of_five:
  "\<exists>r c' sent.
     uploadExecute demoAi acceptingIndex demoPlatform 1000 emptyCache resetUploadStats
       (Some fiveDocuments) False 10 5 = Resolves (r, c', sent) \<and>
     (plainDocument ''doc2'' (js ''bad''))
        \<lparr>embedding := Some zeroVector, cached := Some False,
         embeddingError := Some ''rate limit''\<rparr> \<in> set (concat sent) \<and>
     up_failedDocuments (ur_stats r) = 2 \<and>
     up_indexedDocuments (ur_stats r) = 5 \<and>
     ur_embeddingGenerationRate r = 3 / 5"
proof -
  have content: "\<forall>d \<in> set fiveDocuments. doc_content d \<noteq> None"
    by (simp add: fiveDocuments_def plainDocument_def)
  have ne: "fiveDocuments \<noteq> []" by (simp add: fiveDocuments_def)
  from uploadExecute_total[OF ne _ _ content, of 10 5 demoAi acceptingIndex demoPlatform 1000
      emptyCache resetUploadStats False]
  obtain r c' sent where run:
    "uploadExecute demoAi acceptingIndex demoPlatform 1000 emptyCache resetUploadStats
       (Some fiveDocuments) False 10 5 = Resolves (r, c', sent)"
    by auto
  have d: "plainDocument ''doc2'' (js ''bad'') \<in> set fiveDocuments"
    by (simp add: fiveDocuments_def)
  have f: "embeddingOf demoAi (plainDocument ''doc2'' (js ''bad'')) = Inl ''rate limit''"
    by (simp add: embeddingOf_demo)
  have failures: "length (filter (\<lambda>x. cachedEmbedding emptyCache False x = None \<and>
        \<not> isEmbedded (embeddingOf demoAi x)) fiveDocuments) = 2"
    by (simp add: fiveDocuments_def cachedEmbedding_emptyCache embeddingOf_demo isEmbedded_def
        js_def)
  have successes: "length (filter (\<lambda>x. cachedEmbedding emptyCache False x = None \<and>
        isEmbedded (embeddingOf demoAi x)) fiveDocuments) = 3"
    by (simp add: fiveDocuments_def cachedEmbedding_emptyCache embeddingOf_demo isEmbedded_def
        js_def)
  have rej: "rejectedBatches acceptingIndex sent = []"
    by (simp add: rejectedBatches_def acceptingIndex_def)
  have acc: "acceptedItems acceptingIndex = length"
    by (rule ext) (simp add: acceptedItems_def acceptingIndex_def)
  have len: "length fiveDocuments = 5" by (simp add: fiveDocuments_def)
  from uploadExecute_resolves[OF run ne] obtain s1 s2 withEmb where
    g: "generateEmbeddings demoAi emptyCache
          (resetUploadStats\<lparr>up_totalDocuments := length fiveDocuments\<rparr>)
          fiveDocuments False 5 = Resolves (s1, withEmb)"
    and b: "buildElasticsearchIndex acceptingIndex s1 withEmb 10 = Some (s2, sent)" by blast
  have "length withEmb = 5"
    using generateEmbeddings_result[OF g] len
    by (simp add: servedFromCache_def cachedEmbedding_emptyCache)
  with buildElasticsearchIndex_result(1)[OF b]
  have sum: "sum_list (map length sent) = 5" by (simp add: length_concat[symmetric])
  from uploadExecute_failed_embedding[OF run d cachedEmbedding_emptyCache f]
  have "(plainDocument ''doc2'' (js ''bad''))
        \<lparr>embedding := Some zeroVector, cached := Some False,
         embeddingError := Some ''rate limit''\<rparr> \<in> set (concat sent)"
    and "up_failedDocuments (ur_stats r) = 2"
    and "up_indexedDocuments (ur_stats r) = 5"
    and "ur_embeddingGenerationRate r = 3 / 5"
    unfolding failures successes rej len acc sum by simp_all
  with run show ?thesis by blast
qed

text \<open>
  Claim C6 at a failing input. The stage is run on two documents: \<open>doc1\<close>, whose
  embedding request the AI collaborator fails, and \<open>doc2\<close>, an object without a
  \<open>content\<close> property. For \<open>doc2\<close> every attempt of \<open>generateEmbedding\<close> throws on
  \<open>text.substring\<close>, and the \<open>catch\<close> block of \<open>batchGenerateEmbeddings\<close>, which is
  there to turn a failed request into a result with \<open>success: false\<close>, evaluates
  \<open>text.substring\<close> again and throws itself. The whole stage rejects with that error:
  no bulk request is made, so \<open>doc1\<close> is not indexed with the zero vector, and no
  statistics are returned that count its failure. The claim says that a document whose
  embedding request fails is still indexed and counted.
\<close>

theorem uploadExecute_rejects_on_missing_content:
  "embeddingOf demoAi (plainDocument ''doc1'' (js ''bad'')) = Inl ''rate limit'' \<and>
   uploadExecute demoAi acceptingIndex demoPlatform 1000 emptyCache resetUploadStats
     (Some [plainDocument ''doc1'' (js ''bad''), documentWithoutContent ''doc2''])
     False 10 5 =
     Rejects ''Cannot read properties of undefined (reading 'substring')''"
proof -
  have two: "chunks 5 [Some (js ''bad''), None] = [[Some (js ''bad''), None]]"
    by (subst chunks.simps) (simp add: chunks_Nil)
  have "uploadExecute demoAi acceptingIndex demoPlatform 1000 emptyCache resetUploadStats
     (Some [plainDocument ''doc1'' (js ''bad''), documentWithoutContent ''doc2''])
     False 10 5 =
     Rejects ''Cannot read properties of undefined (reading 'substring')''"
    by (simp add: uploadExecute_def generateEmbeddings_def Let_def cachedEmbedding_emptyCache
        batchGenerateEmbeddings_def chunkArray_def two documentWithoutContent_def
        plainDocument_def)
  then show ?thesis by (simp add: embeddingOf_demo)
qed

section \<open>Proofs: statistics of the stages\<close>














text \<open>
  A content request that fails in the first batch is handled and counted; one that fails
  in a later batch ends the process, and no result is returned.
\<close>

lemma cloneExecute_failure_in_later_batch:
  "cloneExecute secondFailingSource emptyCache [''folder1''] False 1 =
     Crashes ''Get document content failed: not found'' \<and>
   (case cloneExecute secondFailingSource emptyCache [''folder1''] False 10 of
      Resolves r \<Rightarrow>
        cl_totalDocuments (clr_stats r) = 2 \<and> cl_newDocuments (clr_stats r) = 2 \<and>
        cl_failedDocuments (clr_stats r) = 1 \<and> map doc_id (clr_documents r) = [''doc1'']
    | _ \<Rightarrow> False)"
proof -
  have one: "chunks (Suc 0) [x, y] = [[x], [y]]" for x y :: 'a
    by (subst chunks.simps) (simp add: chunks_single)
  have ten: "chunks 10 [x, y] = [[x, y]]" for x y :: 'a
    by (subst chunks.simps) (simp add: chunks_Nil)
  show ?thesis
    by (simp add: cloneExecute_def collectDocuments_def secondFailingSource_def Let_def
        processDocumentsIncremental_def chunkArray_def one ten checkDocument_def
        getCachedDocument_def emptyCache_def resetCloneStats_def fetchDocumentContents_def
        fetchDocument_def recordEntry_def listedDocument_def List.map_filter_simps
        requestError_def cloneGetResults_def plainDocument_def)
qed




section \<open>Proofs: staleness check and cache reuse\<close>

lemma isDocumentModified_valid_times:
  assumes "newDate parse (orTime (sd_modified_time d) (sd_updatedAt d)) = Inr (Some td)"
    and "newDate parse (orTime (lastModified e) (TDate (Some (updatedAt e)))) = Inr (Some tc)"
  shows "isDocumentModified parse d e = (td > tc)"
  using assms by (simp add: isDocumentModified_def dateGreater_def)

lemma isDocumentModified_conversion_error:
  assumes "newDate parse (orTime (sd_modified_time d) (sd_updatedAt d)) = Inl err"
  shows "isDocumentModified parse d e"
  using assms by (simp add: isDocumentModified_def)

text \<open>
  Claim C7 at a failing input. A listed document whose \<open>modified_time\<close> is a string
  that \<open>Date.parse\<close> cannot read is compared with a cache entry whose
  \<open>lastModified\<close> is a valid date: \<open>isDocumentModified\<close> returns \<open>false\<close> (an
  Invalid Date compares false), and the incremental check counts the document as cached
  and skips it. The claim says a parsing error treats the document as changed. (For two
  timestamps that parse, \<open>isDocumentModified_valid_times\<close> above is the claim's first
  half.)
\<close>

theorem isDocumentModified_unparseable_timestamp:
  "isoParse ''not-a-date'' = None \<and>
   isDocumentModified isoParse (listedDocument ''doc1'' (TString ''not-a-date''))
     (cacheEntryFor ''0f343b0931126a20f133d67c2b018a3b'' 1000
        (plainDocument ''doc1'' (js ''hello'')) None None) = False \<and>
   checkDocument isoParse demoCache False resetCloneStats
     (listedDocument ''doc1'' (TString ''not-a-date'')) =
     (resetCloneStats\<lparr>cl_cachedDocuments := 1\<rparr>, None)"
  by (simp add: isoParse_def isDocumentModified_def listedDocument_def cacheEntryFor_def
      plainDocument_def orTime_def dateGreater_def checkDocument_def getCachedDocument_def
      demoCache_def emptyCache_def resetCloneStats_def)

text \<open>
  Claim C3 at a failing input. On a cache without an entry for the document, the first run
  of the Enrichment stage sends the document to the AI collaborator and its
  \<open>updateAIResults\<close> writes nothing; the second run, on the cache the first one left,
  reports \<open>cachedDocuments = 0\<close> for \<open>totalDocuments = 1\<close> and sends the document to
  the AI collaborator again. The claim says \<open>cachedDocuments = totalDocuments\<close>.
\<close>

theorem cleanExecute_twice_without_cache_entry:
  "(case cleanExecute demoAi demoCleanConfig 1000 emptyCache
           (Some [plainDocument ''doc1'' (js ''hello'')]) False 10 5 of
      Resolves (r1, c1) \<Rightarrow>
        entries c1 ''doc1'' = None \<and> aiProcessedDocuments (cr_stats r1) = 1 \<and>
        (case cleanExecute demoAi demoCleanConfig 2000 c1
                (Some [plainDocument ''doc1'' (js ''hello'')]) False 10 5 of
           Resolves (r2, c2) \<Rightarrow>
             totalDocuments (cr_stats r2) = 1 \<and> cachedDocuments (cr_stats r2) = 0 \<and>
             aiProcessedDocuments (cr_stats r2) = 1
         | _ \<Rightarrow> False)
    | _ \<Rightarrow> False)"
  by (simp add: cleanExecute_def processDocumentsWithAI_def chunkArray_def chunks_single
      enrichDocument_def getCachedDocument_def emptyCache_def updateAIResults_def Let_def
      resetCleanStats_def splitLargeDocuments_def demoCleanConfig_def orDefault_def
      cleanGetResults_def plainDocument_def mergeAiResults_def)

text \<open>
  Where the cache already holds an entry for the document, the second run does serve it
  from the cache.
\<close>

lemma cleanExecute_twice_with_cache_entry:
  "(case cleanExecute demoAi demoCleanConfig 2000 demoCache
           (Some [plainDocument ''doc1'' (js ''hello'')]) False 10 5 of
      Resolves (r1, c1) \<Rightarrow>
        aiProcessedDocuments (cr_stats r1) = 1 \<and>
        (case cleanExecute demoAi demoCleanConfig 3000 c1
                (Some [plainDocument ''doc1'' (js ''hello'')]) False 10 5 of
           Resolves (r2, c2) \<Rightarrow>
             totalDocuments (cr_stats r2) = 1 \<and> cachedDocuments (cr_stats r2) = 1
         | _ \<Rightarrow> False)
    | _ \<Rightarrow> False)"
  by (simp add: cleanExecute_def processDocumentsWithAI_def chunkArray_def chunks_single
      enrichDocument_def getCachedDocument_def emptyCache_def updateAIResults_def Let_def
      resetCleanStats_def splitLargeDocuments_def demoCleanConfig_def orDefault_def
      cleanGetResults_def plainDocument_def mergeAiResults_def demoCache_def cacheEntryFor_def)

text \<open>
  The cache reads of one batch come before its writes: a document id that occurs twice in
  a batch is sent to the AI collaborator both times, although the first call stores its
  results in the entry.
\<close>

lemma cleanExecute_same_id_twice:
  "(case cleanExecute demoAi demoCleanConfig 2000 demoCache
           (Some [plainDocument ''doc1'' (js ''hello''), plainDocument ''doc1'' (js ''hello'')])
           False 10 5 of
      Resolves (r, c1) \<Rightarrow>
        totalDocuments (cr_stats r) = 2 \<and> aiProcessedDocuments (cr_stats r) = 2 \<and>
        cachedDocuments (cr_stats r) = 0
    | _ \<Rightarrow> False)"
proof -
  have two: "chunks 10 [x, y] = [[x, y]]" for x y :: 'a
    by (subst chunks.simps) (simp add: chunks_Nil)
  have five: "chunks 5 [x, y] = [[x, y]]" for x y :: 'a
    by (subst chunks.simps) (simp add: chunks_Nil)
  show ?thesis
    by (simp add: cleanExecute_def processDocumentsWithAI_def chunkArray_def two five
        enrichDocument_def getCachedDocument_def emptyCache_def updateAIResults_def Let_def
        resetCleanStats_def splitLargeDocuments_def demoCleanConfig_def orDefault_def
        cleanGetResults_def plainDocument_def mergeAiResults_def demoCache_def cacheEntryFor_def)
qed

end
